theory Spec2Isabelle
  imports Main
begin

section \<open>Data model of the Kanban view\<close>

text \<open>
  The rows of the \<^verbatim>\<open>boards\<close> and \<^verbatim>\<open>cards\<close> tables as the component sees them
  (interfaces \<^verbatim>\<open>Board\<close> and \<^verbatim>\<open>CardData\<close> of the Kanban board component). Record
  fields share one name space, so the fields of a board carry the prefix \<open>b_\<close>, and
  the card identifier is \<open>c_id\<close> because \<open>id\<close> is the identity function of HOL.

  Identifiers are only compared for equality and are modelled as \<open>string\<close>. Text
  that the user types (titles, names, descriptions, tags) is trimmed by the code,
  so it is modelled as what the host language holds: the list of its UTF-16 code
  units, each a number.
\<close>

type_synonym ustring = "nat list"

datatype Priority = low | medium | high | urgent

record Board =
  b_id :: string
  b_name :: ustring
  b_position :: int

record CardData =
  c_id :: string
  title :: ustring
  description :: "ustring option"
  priority :: Priority
  position :: int
  board_id :: string
  tags :: "ustring list"
  due_date :: "string option"

text \<open>The payload of the drag library's drag-end event.\<close>

record DraggableLocation =
  droppableId :: string
  index :: int

record DropResult =
  destination :: "DraggableLocation option"
  source :: DraggableLocation
  draggableId :: string

text \<open>The fields of the creation forms (\<^verbatim>\<open>newBoard\<close>, \<^verbatim>\<open>newCard\<close>).\<close>

record NewCard =
  nc_title :: ustring
  nc_description :: ustring
  nc_priority :: Priority

text \<open>The part of the component state that the modelled handlers read or write.\<close>

record KanbanState =
  boards :: "Board list"
  cards :: "string \<rightharpoonup> CardData list"
  loading :: bool
  showBoardDialog :: bool
  showCardDialog :: bool
  selectedBoardId :: string
  newBoard :: ustring
  newCard :: NewCard

section \<open>The store\<close>

text \<open>
  The hosted store is outside the repository; the handlers only see its answers.
  A table is the list of its rows; a board row carries its project identifier.
\<close>

record Store =
  board_rows :: "(string \<times> Board) list"
  card_rows :: "CardData list"

text \<open>
  The three row updates the component sends to the \<^verbatim>\<open>cards\<close> table, each selected by
  \<^verbatim>\<open>.eq('id', ...)\<close>:
  \<^verbatim>\<open>update({board_id, position})\<close>, \<^verbatim>\<open>update({position})\<close> and \<^verbatim>\<open>update({tags})\<close>.
\<close>

datatype CardUpdate =
    SetBoardPosition string string int
  | SetPosition string int
  | SetTags string "ustring list"

fun update_row :: "CardUpdate \<Rightarrow> CardData \<Rightarrow> CardData" where
  "update_row (SetBoardPosition cid b p) r =
     (if c_id r = cid then r\<lparr>board_id := b, position := p\<rparr> else r)"
| "update_row (SetPosition cid p) r = (if c_id r = cid then r\<lparr>position := p\<rparr> else r)"
| "update_row (SetTags cid ts) r = (if c_id r = cid then r\<lparr>tags := ts\<rparr> else r)"

definition apply_update :: "CardUpdate \<Rightarrow> CardData list \<Rightarrow> CardData list" where
  "apply_update u rows = map (update_row u) rows"

text \<open>
  How an awaited write can end. The client resolves a failed request with an
  \<^verbatim>\<open>{ error }\<close> object (it is what \<^verbatim>\<open>if (error) throw error\<close> tests in \<^verbatim>\<open>createBoard\<close>,
  \<^verbatim>\<open>createCard\<close>, \<^verbatim>\<open>fetchBoards\<close> and \<^verbatim>\<open>updateCardTags\<close>): that is \<open>Rejected\<close>.
  \<open>Threw\<close> is an awaited promise that rejects, the only case a \<^verbatim>\<open>catch\<close> block sees
  by itself. Neither changes the table.
\<close>

datatype WriteOutcome = Applied | Rejected | Threw

datatype ReadOutcome = ReadOk | ReadError

section \<open>Array operations of the host language\<close>

text \<open>
  \<^verbatim>\<open>Array.prototype.splice(start, ...)\<close> on an array of length \<open>n\<close>: a negative start
  counts from the end, and the start is clamped to \<open>0..n\<close>.
\<close>

definition splice_start :: "int \<Rightarrow> nat \<Rightarrow> nat" where
  "splice_start i n = (if i < 0 then nat (max (int n + i) 0) else min (nat i) n)"

text \<open>
  \<^verbatim>\<open>const [x] = xs.splice(i, 1)\<close>: the array without the removed element, and the
  removed element (\<open>None\<close> for \<^verbatim>\<open>undefined\<close>, when nothing was removed).
\<close>

definition splice_remove :: "'a list \<Rightarrow> int \<Rightarrow> 'a list \<times> 'a option" where
  "splice_remove xs i =
     (let k = splice_start i (length xs)
      in (take k xs @ drop (Suc k) xs, if k < length xs then Some (xs ! k) else None))"

text \<open>\<^verbatim>\<open>xs.splice(i, 0, x)\<close>.\<close>

definition splice_insert :: "'a list \<Rightarrow> int \<Rightarrow> 'a \<Rightarrow> 'a list" where
  "splice_insert xs i x = (let k = splice_start i (length xs) in take k xs @ x # drop k xs)"

text \<open>\<^verbatim>\<open>cards[b] || []\<close>.\<close>

definition cards_of :: "(string \<rightharpoonup> CardData list) \<Rightarrow> string \<Rightarrow> CardData list" where
  "cards_of m b = (case m b of None \<Rightarrow> [] | Some cs \<Rightarrow> cs)"

text \<open>
  \<^verbatim>\<open>s.trim()\<close> removes white space and line terminators from both ends. In the
  language's grammar these are the code units
  U+0009 (tab), U+000A (line feed), U+000B (vertical tab), U+000C (form feed),
  U+000D (carriage return), U+0020 (space), U+00A0 (no-break space), U+1680,
  U+2000 to U+200A, U+2028, U+2029, U+202F, U+205F, U+3000 and U+FEFF.
\<close>

definition is_space :: "nat \<Rightarrow> bool" where
  "is_space c =
     (c \<in> set [0x0009, 0x000A, 0x000B, 0x000C, 0x000D, 0x0020, 0x00A0, 0x1680, 0x2028,
               0x2029, 0x202F, 0x205F, 0x3000, 0xFEFF]
      \<or> (0x2000 \<le> c \<and> c \<le> 0x200A))"

definition trim :: "ustring \<Rightarrow> ustring" where
  "trim s = rev (dropWhile is_space (rev (dropWhile is_space s)))"

section \<open>Loading: \<^verbatim>\<open>fetchBoards\<close>\<close>

text \<open>
  \<^verbatim>\<open>cardsData.forEach(card => { if (!cardsByBoard[card.board_id]) ... = [];
  cardsByBoard[card.board_id].push(card) })\<close>.
\<close>

definition cardsByBoard :: "CardData list \<Rightarrow> (string \<rightharpoonup> CardData list)" where
  "cardsByBoard cardsData =
     fold (\<lambda>c m. m(board_id c \<mapsto> cards_of m (board_id c) @ [c])) cardsData Map.empty"

text \<open>
  \<^verbatim>\<open>.order('position')\<close> is ascending; the order of rows with equal positions is the
  store's choice, taken here as the table order (a stable sort).
  A failed read throws into the \<^verbatim>\<open>catch\<close> block, which only logs; \<^verbatim>\<open>finally\<close> clears
  \<^verbatim>\<open>loading\<close>.
\<close>

definition fetchBoards ::
  "string \<Rightarrow> ReadOutcome \<Rightarrow> ReadOutcome \<Rightarrow> Store \<Rightarrow> KanbanState \<Rightarrow> KanbanState" where
  "fetchBoards projectId boardsRead cardsRead store st =
     (if boardsRead = ReadError then st\<lparr>loading := False\<rparr>
      else
        let boardsData = sort_key b_position
              (map snd (filter (\<lambda>pb. fst pb = projectId) (board_rows store)))
        in if cardsRead = ReadError then st\<lparr>loading := False\<rparr>
           else
             let cardsData = sort_key position
                   (filter (\<lambda>c. board_id c \<in> set (map b_id boardsData)) (card_rows store))
             in st\<lparr>boards := boardsData, cards := cardsByBoard cardsData, loading := False\<rparr>)"

section \<open>The drag-end handler: \<^verbatim>\<open>handleDragEnd\<close>\<close>

text \<open>
  The awaited writes of one invocation, in order. \<open>respond k\<close> is how the store
  answers the \<open>k\<close>-th write. The handler awaits each update and drops the value it
  resolves to, so a \<open>Rejected\<close> write is skipped over and the next one is sent; a
  write that throws ends the \<^verbatim>\<open>try\<close> block. The result is the list of writes sent,
  the table afterwards, and whether the \<^verbatim>\<open>catch\<close> block was entered.
\<close>

fun issue ::
  "CardUpdate list \<Rightarrow> nat \<Rightarrow> (nat \<Rightarrow> WriteOutcome) \<Rightarrow> CardData list
     \<Rightarrow> CardUpdate list \<times> CardData list \<times> bool" where
  "issue [] k respond rows = ([], rows, False)"
| "issue (u # us) k respond rows =
     (case respond k of
        Threw \<Rightarrow> ([u], rows, True)
      | Rejected \<Rightarrow>
          (case issue us (Suc k) respond rows of (ws, rows', t) \<Rightarrow> (u # ws, rows', t))
      | Applied \<Rightarrow>
          (case issue us (Suc k) respond (apply_update u rows) of
             (ws, rows', t) \<Rightarrow> (u # ws, rows', t)))"

text \<open>A store that gives every write the same answer.\<close>

definition always :: "WriteOutcome \<Rightarrow> nat \<Rightarrow> WriteOutcome" where
  "always w k = w"

text \<open>\<^verbatim>\<open>xs.map((card, index) => ({ id: card.id, position: index }))\<close>.\<close>

definition position_updates :: "CardData list \<Rightarrow> (string \<times> int) list" where
  "position_updates cs = map (\<lambda>(k, c). (c_id c, int k)) (enumerate 0 cs)"

text \<open>
  The writes of the \<^verbatim>\<open>try\<close> block: the moved card's board and position, then every
  entry of the destination array whose id is not the dragged id, then, when the
  boards differ, every entry of the source array.
\<close>

definition move_updates ::
  "string \<Rightarrow> string \<Rightarrow> string \<Rightarrow> int \<Rightarrow> CardData list \<Rightarrow> CardData list \<Rightarrow> CardUpdate list" where
  "move_updates cardId sourceBoard destBoard destIndex sourceCards destCards =
     SetBoardPosition cardId destBoard destIndex
     # map (\<lambda>(i, p). SetPosition i p) (filter (\<lambda>(i, p). i \<noteq> cardId) (position_updates destCards))
     @ (if sourceBoard \<noteq> destBoard
        then map (\<lambda>(i, p). SetPosition i p) (position_updates sourceCards) else [])"

text \<open>
  The local update (``Update local state immediately''): the source array
  without the element at the source index, and the destination array with the
  removed card inserted. When source and destination are the same board,
  \<^verbatim>\<open>destCards\<close> is the very array \<^verbatim>\<open>sourceCards\<close>, already shortened; after the
  insertion both names denote the array with the card inserted, and the model
  keeps the shortened list under \<open>sourceCards\<close>, which the handler reads again only
  when the boards differ. The only field assignment is \<^verbatim>\<open>movedCard.board_id = destBoard\<close>; when the source array has no
  element at the source index, \<^verbatim>\<open>movedCard\<close> is \<^verbatim>\<open>undefined\<close> and that assignment
  throws, before \<^verbatim>\<open>setCards\<close> and outside the \<^verbatim>\<open>try\<close> block.
\<close>

datatype DragError = TypeError

definition local_move ::
  "(string \<rightharpoonup> CardData list) \<Rightarrow> string \<Rightarrow> int \<Rightarrow> string \<Rightarrow> int
     \<Rightarrow> DragError + CardData list \<times> CardData list" where
  "local_move m sourceBoard sourceIndex destBoard destIndex =
     (case splice_remove (cards_of m sourceBoard) sourceIndex of
        (sourceCards, None) \<Rightarrow> Inl TypeError
      | (sourceCards, Some removed) \<Rightarrow>
          Inr (sourceCards,
               splice_insert
                 (if sourceBoard = destBoard then sourceCards else cards_of m destBoard)
                 destIndex (removed\<lparr>board_id := destBoard\<rparr>)))"

text \<open>
  What one invocation does: the state handed to \<^verbatim>\<open>setCards\<close> before the first write
  (\<open>displayed\<close>), the component state and the table afterwards, the writes sent,
  whether \<^verbatim>\<open>fetchBoards\<close> was called to revert, and whether the error toast was shown.
\<close>

record DragEffect =
  displayed :: KanbanState
  state_after :: KanbanState
  rows_after :: "CardData list"
  writes :: "CardUpdate list"
  reloaded :: bool
  reported :: bool

definition untouched :: "KanbanState \<Rightarrow> Store \<Rightarrow> DragEffect" where
  "untouched st store =
     \<lparr>displayed = st, state_after = st, rows_after = card_rows store, writes = [],
      reloaded = False, reported = False\<rparr>"

text \<open>
  The \<^verbatim>\<open>try\<close>/\<^verbatim>\<open>catch\<close> part, after \<^verbatim>\<open>setCards(newCards)\<close>: the writes are sent; if one
  throws, \<^verbatim>\<open>fetchBoards()\<close> is called and the error toast is shown. \<open>boardsRead\<close> and
  \<open>cardsRead\<close> are the store's answers to the two reads of that \<^verbatim>\<open>fetchBoards\<close>.
\<close>

definition persist_move ::
  "string \<Rightarrow> (nat \<Rightarrow> WriteOutcome) \<Rightarrow> ReadOutcome \<Rightarrow> ReadOutcome \<Rightarrow> CardUpdate list
     \<Rightarrow> KanbanState \<Rightarrow> Store \<Rightarrow> DragEffect" where
  "persist_move projectId respond boardsRead cardsRead updates optimistic store =
     (case issue updates 0 respond (card_rows store) of
        (ws, rows', threw) \<Rightarrow>
          \<lparr>displayed = optimistic,
           state_after =
             (if threw
              then fetchBoards projectId boardsRead cardsRead (store\<lparr>card_rows := rows'\<rparr>)
                     optimistic
              else optimistic),
           rows_after = rows', writes = ws, reloaded = threw, reported = threw\<rparr>)"

text \<open>
  \<^verbatim>\<open>handleDragEnd(result)\<close>. \<open>projectId\<close> is the component's property; \<open>respond\<close> gives
  the store's answers to the writes.
\<close>

definition handleDragEnd ::
  "string \<Rightarrow> (nat \<Rightarrow> WriteOutcome) \<Rightarrow> ReadOutcome \<Rightarrow> ReadOutcome \<Rightarrow> DropResult
     \<Rightarrow> KanbanState \<Rightarrow> Store \<Rightarrow> DragError + DragEffect" where
  "handleDragEnd projectId respond boardsRead cardsRead result st store =
     (case destination result of
        None \<Rightarrow> Inr (untouched st store)
      | Some dest \<Rightarrow>
          if droppableId dest = droppableId (source result) \<and> index dest = index (source result)
          then Inr (untouched st store)
          else
            let sourceBoard = droppableId (source result);
                destBoard = droppableId dest;
                cardId = draggableId result
            in case local_move (cards st) sourceBoard (index (source result)) destBoard
                      (index dest) of
                 Inl err \<Rightarrow> Inl err
               | Inr (sourceCards, destCards) \<Rightarrow>
                   Inr (persist_move projectId respond boardsRead cardsRead
                          (move_updates cardId sourceBoard destBoard (index dest)
                             sourceCards destCards)
                          (st\<lparr>cards := (cards st)(sourceBoard \<mapsto> sourceCards,
                                                  destBoard \<mapsto> destCards)\<rparr>)
                          store))"

section \<open>Sequences of moves\<close>

text \<open>
  A move as the specification describes its input: the dragged card occupies the
  source index of the source board's sequence, and the destination index is an
  index of the destination sequence as it will be after the move. Both boards are
  boards of the view. A drop outside every board is admitted (it does nothing).
\<close>

definition valid_move :: "KanbanState \<Rightarrow> DropResult \<Rightarrow> bool" where
  "valid_move st m =
     (case destination m of
        None \<Rightarrow> True
      | Some dest \<Rightarrow>
          let sourceBoard = droppableId (source m);
              destBoard = droppableId dest;
              sourceCards = cards_of (cards st) sourceBoard;
              si = index (source m);
              di = index dest
          in sourceBoard \<in> set (map b_id (boards st)) \<and> destBoard \<in> set (map b_id (boards st))
             \<and> 0 \<le> si \<and> si < int (length sourceCards)
             \<and> c_id (sourceCards ! nat si) = draggableId m
             \<and> 0 \<le> di
             \<and> di \<le> (if sourceBoard = destBoard then int (length sourceCards) - 1
                      else int (length (cards_of (cards st) destBoard))))"

text \<open>
  A sequence of moves, each with every write applied by the store, each starting
  from the state and the table the one before left. The result is \<open>None\<close> when a
  move throws.
\<close>

fun run_moves ::
  "string \<Rightarrow> DropResult list \<Rightarrow> KanbanState \<Rightarrow> Store \<Rightarrow> (KanbanState \<times> Store) option" where
  "run_moves projectId [] st store = Some (st, store)"
| "run_moves projectId (m # ms) st store =
     (case handleDragEnd projectId (always Applied) ReadOk ReadOk m st store of
        Inl err \<Rightarrow> None
      | Inr e \<Rightarrow> run_moves projectId ms (state_after e) (store\<lparr>card_rows := rows_after e\<rparr>))"

fun valid_moves :: "string \<Rightarrow> DropResult list \<Rightarrow> KanbanState \<Rightarrow> Store \<Rightarrow> bool" where
  "valid_moves projectId [] st store = True"
| "valid_moves projectId (m # ms) st store =
     (valid_move st m \<and>
      (case handleDragEnd projectId (always Applied) ReadOk ReadOk m st store of
         Inl err \<Rightarrow> False
       | Inr e \<Rightarrow> valid_moves projectId ms (state_after e) (store\<lparr>card_rows := rows_after e\<rparr>)))"

text \<open>
  The position values of a board's cards in the table, and the property that they
  are exactly \<open>0, ..., count - 1\<close> without duplicates.
\<close>

definition board_positions :: "CardData list \<Rightarrow> string \<Rightarrow> int list" where
  "board_positions rows b = map position (filter (\<lambda>r. board_id r = b) rows)"

definition positions_dense :: "CardData list \<Rightarrow> string \<Rightarrow> bool" where
  "positions_dense rows b =
     (distinct (board_positions rows b) \<and>
      set (board_positions rows b) = set (map int [0..<length (board_positions rows b)]))"

text \<open>
  The in-memory view agrees with the table on the boards \<open>bs\<close>: the card at index
  \<open>k\<close> of a board's sequence is a row of that board with position \<open>k\<close>, and every row
  of such a board is in the board's sequence. Only identifiers are compared: the
  handler reads nothing else of an in-memory card. Identifiers are the primary key
  of the table.
\<close>

definition in_sync :: "string list \<Rightarrow> (string \<rightharpoonup> CardData list) \<Rightarrow> CardData list \<Rightarrow> bool" where
  "in_sync bs m rows =
     (distinct (map c_id rows) \<and>
      (\<forall>b \<in> set bs. \<forall>k < length (cards_of m b).
         \<exists>r \<in> set rows. c_id r = c_id (cards_of m b ! k) \<and> board_id r = b \<and> position r = int k) \<and>
      (\<forall>r \<in> set rows. board_id r \<in> set bs \<longrightarrow> c_id r \<in> c_id ` set (cards_of m (board_id r))))"

section \<open>Creating boards and cards: \<^verbatim>\<open>createBoard\<close>, \<^verbatim>\<open>createCard\<close>\<close>

text \<open>The objects handed to \<^verbatim>\<open>insert\<close>.\<close>

record BoardInsert =
  bi_name :: ustring
  bi_project_id :: string
  bi_position :: int

record CardInsert =
  ci_title :: ustring
  ci_description :: "ustring option"
  ci_priority :: Priority
  ci_board_id :: string
  ci_position :: int
  ci_tags :: "ustring list"

text \<open>
  The answer to \<^verbatim>\<open>insert(...).select().single()\<close>: the row the store returns as
  \<^verbatim>\<open>data\<close>, or a failure, which \<^verbatim>\<open>if (error) throw error\<close> sends to the \<^verbatim>\<open>catch\<close>
  block like a rejected promise.
\<close>

datatype 'row InsertOutcome = Inserted 'row | InsertFailed

datatype Toast = Success | Error

record 'req CreateEffect =
  created_state :: KanbanState
  request :: "'req option"
  toast :: "Toast option"

definition createBoard ::
  "string \<Rightarrow> Board InsertOutcome \<Rightarrow> KanbanState \<Rightarrow> BoardInsert CreateEffect" where
  "createBoard projectId answer st =
     (if trim (newBoard st) = [] then \<lparr>created_state = st, request = None, toast = None\<rparr>
      else
        let req = \<lparr>bi_name = newBoard st, bi_project_id = projectId,
                   bi_position = int (length (boards st))\<rparr>
        in case answer of
             InsertFailed \<Rightarrow> \<lparr>created_state = st, request = Some req, toast = Some Error\<rparr>
           | Inserted data \<Rightarrow>
               \<lparr>created_state = st\<lparr>boards := boards st @ [data], newBoard := [],
                                    showBoardDialog := False\<rparr>,
                request = Some req, toast = Some Success\<rparr>)"

definition createCard :: "CardData InsertOutcome \<Rightarrow> KanbanState \<Rightarrow> CardInsert CreateEffect" where
  "createCard answer st =
     (if trim (nc_title (newCard st)) = [] \<or> selectedBoardId st = []
      then \<lparr>created_state = st, request = None, toast = None\<rparr>
      else
        let boardCards = cards_of (cards st) (selectedBoardId st);
            req = \<lparr>ci_title = nc_title (newCard st),
                   ci_description =
                     (if nc_description (newCard st) = [] then None
                      else Some (nc_description (newCard st))),
                   ci_priority = nc_priority (newCard st),
                   ci_board_id = selectedBoardId st,
                   ci_position = int (length boardCards),
                   ci_tags = []\<rparr>
        in case answer of
             InsertFailed \<Rightarrow> \<lparr>created_state = st, request = Some req, toast = Some Error\<rparr>
           | Inserted data \<Rightarrow>
               \<lparr>created_state =
                  st\<lparr>cards := (cards st)(selectedBoardId st \<mapsto> boardCards @ [data]),
                     newCard := \<lparr>nc_title = [], nc_description = [], nc_priority = medium\<rparr>,
                     showCardDialog := False, selectedBoardId := []\<rparr>,
                request = Some req, toast = Some Success\<rparr>)"

section \<open>Tags of a card: \<^verbatim>\<open>addTag\<close> of the card detail dialog\<close>

record TagState =
  modal_tags :: "ustring list"
  newTag :: ustring

record TagEffect =
  tag_state :: TagState
  tag_writes :: "CardUpdate list"
  card_updated :: bool
  tag_error :: bool

text \<open>
  \<^verbatim>\<open>addTag()\<close> with \<^verbatim>\<open>updateCardTags\<close> inlined: \<^verbatim>\<open>tags.includes(newTag)\<close> compares with
  strict equality. The local tag list is set before the write is sent; the answer
  only decides between \<^verbatim>\<open>onCardUpdate()\<close> and the error toast.
\<close>

definition addTag :: "WriteOutcome \<Rightarrow> string \<Rightarrow> TagState \<Rightarrow> TagEffect" where
  "addTag answer cardId ts =
     (if trim (newTag ts) = [] \<or> newTag ts \<in> set (modal_tags ts)
      then \<lparr>tag_state = ts, tag_writes = [], card_updated = False, tag_error = False\<rparr>
      else
        let updatedTags = modal_tags ts @ [newTag ts]
        in \<lparr>tag_state = \<lparr>modal_tags = updatedTags, newTag = []\<rparr>,
            tag_writes = [SetTags cardId updatedTags],
            card_updated = (answer = Applied), tag_error = (answer \<noteq> Applied)\<rparr>)"

section \<open>The write set in the specification's words\<close>

text \<open>The index of the card with identifier \<open>cid\<close> in a sequence (its length when absent).\<close>

definition index_of :: "string \<Rightarrow> CardData list \<Rightarrow> nat" where
  "index_of cid cs = length (takeWhile (\<lambda>c. c_id c \<noteq> cid) cs)"

text \<open>
  The persistence step as the specification words it, for comparison with
  \<open>move_updates\<close>: one update of the moved card's board and position; one position
  update per other card of the destination sequence whose index changed; when the
  boards differ, one per card of the source sequence whose index changed.
  \<open>oldSource\<close> and \<open>oldDest\<close> are the sequences before the move, \<open>newSource\<close> and
  \<open>newDest\<close> after it.
\<close>

definition spec_move_updates ::
  "string \<Rightarrow> string \<Rightarrow> string \<Rightarrow> int \<Rightarrow> CardData list \<Rightarrow> CardData list
     \<Rightarrow> CardData list \<Rightarrow> CardData list \<Rightarrow> CardUpdate list" where
  "spec_move_updates cardId sourceBoard destBoard destIndex oldSource oldDest newSource newDest =
     SetBoardPosition cardId destBoard destIndex
     # map (\<lambda>(k, c). SetPosition (c_id c) (int k))
         (filter (\<lambda>(k, c). c_id c \<noteq> cardId \<and> index_of (c_id c) oldDest \<noteq> k)
            (enumerate 0 newDest))
     @ (if sourceBoard \<noteq> destBoard
        then map (\<lambda>(k, c). SetPosition (c_id c) (int k))
               (filter (\<lambda>(k, c). index_of (c_id c) oldSource \<noteq> k) (enumerate 0 newSource))
        else [])"

section \<open>Example data\<close>

text \<open>
  A card and a board with the given identifier and position and no text, and a
  view showing given boards and sequences with empty forms.
\<close>

definition mk_card :: "string \<Rightarrow> string \<Rightarrow> int \<Rightarrow> CardData" where
  "mk_card i b p =
     \<lparr>c_id = i, title = [], description = None, priority = medium, position = p,
      board_id = b, tags = [], due_date = None\<rparr>"

definition mk_board :: "string \<Rightarrow> int \<Rightarrow> Board" where
  "mk_board i p = \<lparr>b_id = i, b_name = [], b_position = p\<rparr>"

definition view :: "Board list \<Rightarrow> (string \<rightharpoonup> CardData list) \<Rightarrow> KanbanState" where
  "view bs m =
     \<lparr>boards = bs, cards = m, loading = False, showBoardDialog = False,
      showCardDialog = False, selectedBoardId = [], newBoard = [],
      newCard = \<lparr>nc_title = [], nc_description = [], nc_priority = medium\<rparr>\<rparr>"

section \<open>Evaluation lemmas\<close>

lemma issue_all_applied:
  "issue us k (always Applied) rows = (us, fold apply_update us rows, False)"
  by (induction us arbitrary: k rows) (auto simp: always_def)

lemma issue_no_throw:
  assumes "\<And>j. respond j \<noteq> Threw"
  shows "fst (issue us k respond rows) = us \<and> \<not> snd (snd (issue us k respond rows))"
proof (induction us arbitrary: k rows)
  case Nil
  show ?case by simp
next
  case (Cons u us)
  have "respond k = Applied \<or> respond k = Rejected"
    using assms [of k] by (cases "respond k") auto
  then show ?case
    using Cons.IH [of "Suc k" rows] Cons.IH [of "Suc k" "apply_update u rows"]
    by (auto split: prod.splits)
qed

lemma splice_start_in: "0 \<le> i \<Longrightarrow> i \<le> int n \<Longrightarrow> splice_start i n = nat i"
  by (auto simp: splice_start_def)

lemma local_move_in_range:
  assumes "S = cards_of m src" and "0 \<le> si" and "si < int (length S)"
    and "D = (if src = dst then take (nat si) S @ drop (Suc (nat si)) S else cards_of m dst)"
    and "0 \<le> di" and "di \<le> int (length D)"
  shows "local_move m src si dst di
         = Inr (take (nat si) S @ drop (Suc (nat si)) S,
                take (nat di) D @ (S ! nat si)\<lparr>board_id := dst\<rparr> # drop (nat di) D)"
proof -
  have 1: "splice_start si (length (cards_of m src)) = nat si"
    using assms(1,2,3) by (simp add: splice_start_in)
  have 2: "splice_start di (length D) = nat di"
    using assms(5,6) by (simp add: splice_start_in)
  have 3: "nat si < length (cards_of m src)"
    using assms(2,3) unfolding assms(1) by linarith
  have 4: "(if src = dst
            then take (nat si) (cards_of m src) @ drop (Suc (nat si)) (cards_of m src)
            else cards_of m dst) = D"
    using assms(1,4) by simp
  show ?thesis
    unfolding local_move_def splice_remove_def Let_def 1
    using 2 3 by (simp add: splice_insert_def Let_def 4 assms(1))
qed

lemma handleDragEnd_moved:
  assumes "destination m = Some d"
    and "\<not> (droppableId d = droppableId (source m) \<and> index d = index (source m))"
    and "local_move (cards st) (droppableId (source m)) (index (source m)) (droppableId d)
           (index d) = Inr (sc, dc)"
    and "issue (move_updates (draggableId m) (droppableId (source m)) (droppableId d)
                  (index d) sc dc)
           0 respond (card_rows store) = (ws, rows', threw)"
  shows "handleDragEnd projectId respond boardsRead cardsRead m st store
         = Inr \<lparr>displayed =
                  st\<lparr>cards := (cards st)(droppableId (source m) \<mapsto> sc, droppableId d \<mapsto> dc)\<rparr>,
                state_after =
                  (if threw
                   then fetchBoards projectId boardsRead cardsRead (store\<lparr>card_rows := rows'\<rparr>)
                          (st\<lparr>cards := (cards st)(droppableId (source m) \<mapsto> sc,
                                                  droppableId d \<mapsto> dc)\<rparr>)
                   else st\<lparr>cards := (cards st)(droppableId (source m) \<mapsto> sc,
                                                 droppableId d \<mapsto> dc)\<rparr>),
                rows_after = rows', writes = ws, reloaded = threw, reported = threw\<rparr>"
proof -
  have n: "(droppableId d = droppableId (source m) \<and> index d = index (source m)) = False"
    using assms(2) by simp
  show ?thesis
    by (simp only: handleDragEnd_def persist_move_def Let_def assms(1) n assms(3) assms(4)
          option.case if_False sum.case prod.case)
qed

lemma handleDragEnd_applied:
  assumes "destination m = Some d"
    and "\<not> (droppableId d = droppableId (source m) \<and> index d = index (source m))"
    and "local_move (cards st) (droppableId (source m)) (index (source m)) (droppableId d)
           (index d) = Inr (sc, dc)"
  shows "handleDragEnd projectId (always Applied) boardsRead cardsRead m st store
         = Inr \<lparr>displayed =
                  st\<lparr>cards := (cards st)(droppableId (source m) \<mapsto> sc, droppableId d \<mapsto> dc)\<rparr>,
                state_after =
                  st\<lparr>cards := (cards st)(droppableId (source m) \<mapsto> sc, droppableId d \<mapsto> dc)\<rparr>,
                rows_after =
                  fold apply_update
                    (move_updates (draggableId m) (droppableId (source m)) (droppableId d)
                       (index d) sc dc)
                    (card_rows store),
                writes = move_updates (draggableId m) (droppableId (source m)) (droppableId d)
                           (index d) sc dc,
                reloaded = False, reported = False\<rparr>"
  by (subst handleDragEnd_moved [OF assms issue_all_applied]) simp

lemma mk_card_sel:
  "c_id (mk_card i b p) = i" "board_id (mk_card i b p) = b" "position (mk_card i b p) = p"
  "(mk_card i b p)\<lparr>board_id := b'\<rparr> = mk_card i b' p"
  "(mk_card i b p)\<lparr>position := p'\<rparr> = mk_card i b p'"
  "(mk_card i b p)\<lparr>board_id := b', position := p'\<rparr> = mk_card i b' p'"
  by (simp_all add: mk_card_def)

lemma mk_board_sel: "b_id (mk_board i p) = i" "b_position (mk_board i p) = p"
  by (simp_all add: mk_board_def)

lemma view_sel:
  "cards (view bs m) = m" "boards (view bs m) = bs"
  "(view bs m)\<lparr>cards := m'\<rparr> = view bs m'"
  "(view bs m)\<lparr>boards := bs', cards := m', loading := False\<rparr> = view bs' m'"
  by (simp_all add: view_def)


lemma snd_position_updates: "map snd (position_updates cs) = map int [0..<length cs]"
proof -
  have "map snd (position_updates cs) = map (\<lambda>p. int (fst p)) (enumerate 0 cs)"
    by (simp add: position_updates_def case_prod_unfold comp_def)
  also have "\<dots> = map int (map fst (enumerate 0 cs))"
    by (simp only: map_map comp_def)
  also have "\<dots> = map int [0..<length cs]"
    by (simp only: map_fst_enumerate) simp
  finally show ?thesis .
qed

lemma fst_position_updates: "map fst (position_updates cs) = map c_id cs"
proof -
  have "map fst (position_updates cs) = map (\<lambda>p. c_id (snd p)) (enumerate 0 cs)"
    by (simp add: position_updates_def case_prod_unfold comp_def)
  also have "\<dots> = map c_id (map snd (enumerate 0 cs))"
    by (simp only: map_map comp_def)
  also have "\<dots> = map c_id cs"
    by (simp only: map_snd_enumerate)
  finally show ?thesis .
qed

section \<open>Dropping outside every board, and dropping in place\<close>

text \<open>
  C10. A drag that ends with no destination is a complete no-op: the handler
  returns before any in-memory change and sends no write; the component state and
  the table are as before, whatever the store would have answered.
\<close>

theorem drop_outside_is_noop:
  "handleDragEnd projectId respond boardsRead cardsRead
     \<lparr>destination = None, source = src, draggableId = cardId\<rparr> st store
   = Inr \<lparr>displayed = st, state_after = st, rows_after = card_rows store, writes = [],
          reloaded = False, reported = False\<rparr>"
  by (simp add: handleDragEnd_def untouched_def)

text \<open>
  C5. A move whose destination board and index equal its source board and index
  changes nothing in memory and sends no write, for every card, board and index.
\<close>

theorem move_in_place_is_noop:
  "handleDragEnd projectId respond boardsRead cardsRead
     \<lparr>destination = Some \<lparr>droppableId = board, index = i\<rparr>,
      source = \<lparr>droppableId = board, index = i\<rparr>, draggableId = cardId\<rparr> st store
   = Inr \<lparr>displayed = st, state_after = st, rows_after = card_rows store, writes = [],
          reloaded = False, reported = False\<rparr>"
  by (simp add: handleDragEnd_def untouched_def)

section \<open>Creation and tags\<close>

text \<open>
  C8. When the card form is filled in (the title is not blank and a board is
  selected), creating a card on a board that holds N cards sends an insert with
  position N, an empty tag list and that board's identifier, whatever the board
  form holds; the row the store returns is appended last to that board's sequence
  and no other sequence changes. When the board form is filled in (the name is
  not blank), creating a board in a view with M boards sends an insert with
  position M, whatever the card form holds, and the returned row is appended last
  to the board list.
\<close>

theorem creation_appends_last:
  "(trim (nc_title (newCard st)) \<noteq> [] \<and> selectedBoardId st \<noteq> [] \<longrightarrow>
      request (createCard answer st)
        = Some \<lparr>ci_title = nc_title (newCard st),
                 ci_description =
                   (if nc_description (newCard st) = [] then None
                    else Some (nc_description (newCard st))),
                 ci_priority = nc_priority (newCard st),
                 ci_board_id = selectedBoardId st,
                 ci_position = int (length (cards_of (cards st) (selectedBoardId st))),
                 ci_tags = []\<rparr>
      \<and> cards (created_state (createCard (Inserted data) st))
          = (cards st)(selectedBoardId st \<mapsto> cards_of (cards st) (selectedBoardId st) @ [data])
      \<and> toast (createCard (Inserted data) st) = Some Success
      \<and> created_state (createCard InsertFailed st) = st)
   \<and> (trim (newBoard st) \<noteq> [] \<longrightarrow>
      request (createBoard projectId answerB st)
        = Some \<lparr>bi_name = newBoard st, bi_project_id = projectId,
                 bi_position = int (length (boards st))\<rparr>
      \<and> boards (created_state (createBoard projectId (Inserted b) st)) = boards st @ [b]
      \<and> cards (created_state (createBoard projectId (Inserted b) st)) = cards st
      \<and> toast (createBoard projectId (Inserted b) st) = Some Success
      \<and> created_state (createBoard projectId InsertFailed st) = st)"
  by (auto simp: createCard_def createBoard_def Let_def split: InsertOutcome.splits)

text \<open>
  A card is created with the title ``t'' while the board form is empty, and a board
  named ``Done'' while no board is selected and the card form is empty.
\<close>

theorem creation_appends_last_witness:
  "request (createCard (Inserted (mk_card ''n'' ''B'' 2))
     ((view [mk_board ''B'' 0] [''B'' \<mapsto> [mk_card ''x'' ''B'' 0, mk_card ''y'' ''B'' 1]])
        \<lparr>selectedBoardId := ''B'',
         newCard := \<lparr>nc_title = [116], nc_description = [], nc_priority = high\<rparr>\<rparr>))
   = Some \<lparr>ci_title = [116], ci_description = None, ci_priority = high, ci_board_id = ''B'',
            ci_position = 2, ci_tags = []\<rparr>
   \<and> cards (created_state (createCard (Inserted (mk_card ''n'' ''B'' 2))
        ((view [mk_board ''B'' 0] [''B'' \<mapsto> [mk_card ''x'' ''B'' 0, mk_card ''y'' ''B'' 1]])
           \<lparr>selectedBoardId := ''B'',
            newCard := \<lparr>nc_title = [116], nc_description = [], nc_priority = high\<rparr>\<rparr>)))
     = [''B'' \<mapsto> [mk_card ''x'' ''B'' 0, mk_card ''y'' ''B'' 1, mk_card ''n'' ''B'' 2]]
   \<and> request (createBoard ''p'' (Inserted (mk_board ''C'' 1))
        ((view [mk_board ''B'' 0] [''B'' \<mapsto> [mk_card ''x'' ''B'' 0, mk_card ''y'' ''B'' 1]])
           \<lparr>newBoard := [68, 111, 110, 101]\<rparr>))
     = Some \<lparr>bi_name = [68, 111, 110, 101], bi_project_id = ''p'', bi_position = 1\<rparr>
   \<and> boards (created_state (createBoard ''p'' (Inserted (mk_board ''C'' 1))
        ((view [mk_board ''B'' 0] [''B'' \<mapsto> [mk_card ''x'' ''B'' 0, mk_card ''y'' ''B'' 1]])
           \<lparr>newBoard := [68, 111, 110, 101]\<rparr>)))
     = [mk_board ''B'' 0, mk_board ''C'' 1]"
  using creation_appends_last
    [of "(view [mk_board ''B'' 0] [''B'' \<mapsto> [mk_card ''x'' ''B'' 0, mk_card ''y'' ''B'' 1]])
           \<lparr>selectedBoardId := ''B'',
            newCard := \<lparr>nc_title = [116], nc_description = [], nc_priority = high\<rparr>\<rparr>"
        "Inserted (mk_card ''n'' ''B'' 2)" "mk_card ''n'' ''B'' 2"]
    creation_appends_last
    [of "(view [mk_board ''B'' 0] [''B'' \<mapsto> [mk_card ''x'' ''B'' 0, mk_card ''y'' ''B'' 1]])
           \<lparr>newBoard := [68, 111, 110, 101]\<rparr>"
        _ _ "''p''" "Inserted (mk_board ''C'' 1)" "mk_board ''C'' 1"]
  by (simp add: view_def trim_def is_space_def cards_of_def)

text \<open>
  C9, as the code has it. Adding a tag that is already in the card's tag list
  (compared by exact string equality, so case-sensitively) changes nothing and
  sends no write. Adding a tag that is not blank and not in the list appends it and
  sends the new list to the store. A blank tag (empty, or white space only) is
  rejected as well, whether or not it is in the list. A tag list without
  duplicates stays without duplicates.
\<close>

theorem add_tag_rejects_duplicates:
  "(newTag ts \<in> set (modal_tags ts) \<longrightarrow>
      addTag answer cardId ts
        = \<lparr>tag_state = ts, tag_writes = [], card_updated = False, tag_error = False\<rparr>)
   \<and> (trim (newTag ts) \<noteq> [] \<and> newTag ts \<notin> set (modal_tags ts) \<longrightarrow>
        modal_tags (tag_state (addTag answer cardId ts)) = modal_tags ts @ [newTag ts]
        \<and> tag_writes (addTag answer cardId ts) = [SetTags cardId (modal_tags ts @ [newTag ts])])
   \<and> (trim (newTag ts) = [] \<longrightarrow>
        addTag answer cardId ts
          = \<lparr>tag_state = ts, tag_writes = [], card_updated = False, tag_error = False\<rparr>)
   \<and> (distinct (modal_tags ts) \<longrightarrow> distinct (modal_tags (tag_state (addTag answer cardId ts))))"
  by (auto simp: addTag_def Let_def)

text \<open>
  The tag list is \<open>[a, b]\<close> (code units 97 and 98). Adding ``a'' again is rejected;
  adding ``A'' (65) appends it; adding a space (32) or a no-break space (160) is
  rejected.
\<close>

theorem add_tag_rejects_duplicates_witness:
  "addTag Applied ''c'' \<lparr>modal_tags = [[97], [98]], newTag = [97]\<rparr>
     = \<lparr>tag_state = \<lparr>modal_tags = [[97], [98]], newTag = [97]\<rparr>, tag_writes = [],
        card_updated = False, tag_error = False\<rparr>
   \<and> modal_tags (tag_state (addTag Applied ''c'' \<lparr>modal_tags = [[97], [98]], newTag = [65]\<rparr>))
       = [[97], [98], [65]]
   \<and> tag_writes (addTag Applied ''c'' \<lparr>modal_tags = [[97], [98]], newTag = [65]\<rparr>)
       = [SetTags ''c'' [[97], [98], [65]]]
   \<and> addTag Applied ''c'' \<lparr>modal_tags = [[97], [98]], newTag = [32]\<rparr>
     = \<lparr>tag_state = \<lparr>modal_tags = [[97], [98]], newTag = [32]\<rparr>, tag_writes = [],
        card_updated = False, tag_error = False\<rparr>
   \<and> addTag Applied ''c'' \<lparr>modal_tags = [[97], [98]], newTag = [160]\<rparr>
     = \<lparr>tag_state = \<lparr>modal_tags = [[97], [98]], newTag = [160]\<rparr>, tag_writes = [],
        card_updated = False, tag_error = False\<rparr>
   \<and> distinct (modal_tags (tag_state (addTag Applied ''c'' \<lparr>modal_tags = [[97], [98]], newTag = [65]\<rparr>)))"
  using add_tag_rejects_duplicates [of "\<lparr>modal_tags = [[97], [98]], newTag = [97]\<rparr>" Applied "''c''"]
    add_tag_rejects_duplicates [of "\<lparr>modal_tags = [[97], [98]], newTag = [65]\<rparr>" Applied "''c''"]
    add_tag_rejects_duplicates [of "\<lparr>modal_tags = [[97], [98]], newTag = [32]\<rparr>" Applied "''c''"]
    add_tag_rejects_duplicates [of "\<lparr>modal_tags = [[97], [98]], newTag = [160]\<rparr>" Applied "''c''"]
  by (simp add: trim_def is_space_def)

text \<open>
  C9 fails as stated at the empty string: it is not in the tag list \<open>[a]\<close>, yet
  adding it appends nothing and sends no write.
\<close>

theorem add_blank_tag_counterexample:
  "[] \<notin> set [[97 :: nat]] \<and>
   addTag Applied ''c'' \<lparr>modal_tags = [[97]], newTag = []\<rparr>
     = \<lparr>tag_state = \<lparr>modal_tags = [[97]], newTag = []\<rparr>, tag_writes = [],
        card_updated = False, tag_error = False\<rparr>"
  by (simp add: addTag_def trim_def)

section \<open>Failed writes\<close>

lemma local_move_x_to_end:
  "local_move [''B'' \<mapsto> [mk_card ''x'' ''B'' 0, mk_card ''y'' ''B'' 1, mk_card ''z'' ''B'' 2]]
     ''B'' 0 ''B'' 2
   = Inr ([mk_card ''y'' ''B'' 1, mk_card ''z'' ''B'' 2],
          [mk_card ''y'' ''B'' 1, mk_card ''z'' ''B'' 2, mk_card ''x'' ''B'' 0])"
  by (simp add: local_move_def splice_remove_def splice_insert_def splice_start_def cards_of_def
        mk_card_sel)

lemma updates_x_to_end:
  "move_updates ''x'' ''B'' ''B'' 2 [mk_card ''y'' ''B'' 1, mk_card ''z'' ''B'' 2]
     [mk_card ''y'' ''B'' 1, mk_card ''z'' ''B'' 2, mk_card ''x'' ''B'' 0]
   = [SetBoardPosition ''x'' ''B'' 2, SetPosition ''y'' 0, SetPosition ''z'' 1]"
  by (simp add: move_updates_def position_updates_def enumerate_eq_zip mk_card_sel)

text \<open>
  C1 at a failing input. Board \<open>B\<close> holds \<open>[x, y, z]\<close>; \<open>x\<close> is moved to the end. The
  store applies the moved card's write and answers the next one (the renumbering
  of the sibling \<open>y\<close>) with an error object. The handler never looks at the answer:
  it sends the third write, does not call \<^verbatim>\<open>fetchBoards\<close> and shows no toast. The
  view keeps the optimistic \<open>[y, z, x]\<close> while the table has \<open>y\<close> and \<open>z\<close> both at
  position 1.
\<close>

theorem rejected_write_is_ignored:
  "handleDragEnd ''p'' ((always Applied)(1 := Rejected)) ReadOk ReadOk
     \<lparr>destination = Some \<lparr>droppableId = ''B'', index = 2\<rparr>,
      source = \<lparr>droppableId = ''B'', index = 0\<rparr>, draggableId = ''x''\<rparr>
     (view [mk_board ''B'' 0]
        [''B'' \<mapsto> [mk_card ''x'' ''B'' 0, mk_card ''y'' ''B'' 1, mk_card ''z'' ''B'' 2]])
     \<lparr>board_rows = [(''p'', mk_board ''B'' 0)],
      card_rows = [mk_card ''x'' ''B'' 0, mk_card ''y'' ''B'' 1, mk_card ''z'' ''B'' 2]\<rparr>
   = Inr \<lparr>displayed = view [mk_board ''B'' 0]
            [''B'' \<mapsto> [mk_card ''y'' ''B'' 1, mk_card ''z'' ''B'' 2, mk_card ''x'' ''B'' 0]],
          state_after = view [mk_board ''B'' 0]
            [''B'' \<mapsto> [mk_card ''y'' ''B'' 1, mk_card ''z'' ''B'' 2, mk_card ''x'' ''B'' 0]],
          rows_after = [mk_card ''x'' ''B'' 2, mk_card ''y'' ''B'' 1, mk_card ''z'' ''B'' 1],
          writes = [SetBoardPosition ''x'' ''B'' 2, SetPosition ''y'' 0, SetPosition ''z'' 1],
          reloaded = False, reported = False\<rparr>"
  by (subst handleDragEnd_moved
        [where d = "\<lparr>droppableId = ''B'', index = 2\<rparr>"
           and sc = "[mk_card ''y'' ''B'' 1, mk_card ''z'' ''B'' 2]"
           and dc = "[mk_card ''y'' ''B'' 1, mk_card ''z'' ''B'' 2, mk_card ''x'' ''B'' 0]"
           and ws = "[SetBoardPosition ''x'' ''B'' 2, SetPosition ''y'' 0, SetPosition ''z'' 1]"
           and rows' = "[mk_card ''x'' ''B'' 2, mk_card ''y'' ''B'' 1, mk_card ''z'' ''B'' 1]"
           and threw = False])
     (simp_all add: view_sel local_move_x_to_end updates_x_to_end always_def mk_card_sel
        apply_update_def)

text \<open>
  The \<^verbatim>\<open>catch\<close> block is reached only by a write that throws. Then the handler does
  what C1 describes: here the second write throws after the first was applied, the
  view is replaced by what \<^verbatim>\<open>fetchBoards\<close> reads from the partially updated table,
  and the failure is reported.
\<close>

lemma thrown_write_reloads:
  "handleDragEnd ''p'' ((always Applied)(1 := Threw)) ReadOk ReadOk
     \<lparr>destination = Some \<lparr>droppableId = ''B'', index = 2\<rparr>,
      source = \<lparr>droppableId = ''B'', index = 0\<rparr>, draggableId = ''x''\<rparr>
     (view [mk_board ''B'' 0]
        [''B'' \<mapsto> [mk_card ''x'' ''B'' 0, mk_card ''y'' ''B'' 1, mk_card ''z'' ''B'' 2]])
     \<lparr>board_rows = [(''p'', mk_board ''B'' 0)],
      card_rows = [mk_card ''x'' ''B'' 0, mk_card ''y'' ''B'' 1, mk_card ''z'' ''B'' 2]\<rparr>
   = Inr \<lparr>displayed = view [mk_board ''B'' 0]
            [''B'' \<mapsto> [mk_card ''y'' ''B'' 1, mk_card ''z'' ''B'' 2, mk_card ''x'' ''B'' 0]],
          state_after = view [mk_board ''B'' 0]
            [''B'' \<mapsto> [mk_card ''y'' ''B'' 1, mk_card ''x'' ''B'' 2, mk_card ''z'' ''B'' 2]],
          rows_after = [mk_card ''x'' ''B'' 2, mk_card ''y'' ''B'' 1, mk_card ''z'' ''B'' 2],
          writes = [SetBoardPosition ''x'' ''B'' 2, SetPosition ''y'' 0],
          reloaded = True, reported = True\<rparr>"
proof -
  have load: "fetchBoards ''p'' ReadOk ReadOk
                \<lparr>board_rows = [(''p'', mk_board ''B'' 0)],
                 card_rows = [mk_card ''x'' ''B'' 2, mk_card ''y'' ''B'' 1, mk_card ''z'' ''B'' 2]\<rparr>
                (view [mk_board ''B'' 0]
                   [''B'' \<mapsto> [mk_card ''y'' ''B'' 1, mk_card ''z'' ''B'' 2, mk_card ''x'' ''B'' 0]])
              = view [mk_board ''B'' 0]
                  [''B'' \<mapsto> [mk_card ''y'' ''B'' 1, mk_card ''x'' ''B'' 2, mk_card ''z'' ''B'' 2]]"
    by (simp add: fetchBoards_def cardsByBoard_def cards_of_def mk_card_sel view_sel mk_board_def)
  show ?thesis
    by (subst handleDragEnd_moved
          [where d = "\<lparr>droppableId = ''B'', index = 2\<rparr>"
             and sc = "[mk_card ''y'' ''B'' 1, mk_card ''z'' ''B'' 2]"
             and dc = "[mk_card ''y'' ''B'' 1, mk_card ''z'' ''B'' 2, mk_card ''x'' ''B'' 0]"
             and ws = "[SetBoardPosition ''x'' ''B'' 2, SetPosition ''y'' 0]"
             and rows' = "[mk_card ''x'' ''B'' 2, mk_card ''y'' ''B'' 1, mk_card ''z'' ''B'' 2]"
             and threw = True])
       (simp_all add: view_sel local_move_x_to_end updates_x_to_end always_def mk_card_sel
          apply_update_def load)
qed

section \<open>The writes of a move\<close>

lemma handleDragEnd_returns:
  assumes "destination m = Some d"
    and "\<not> (droppableId d = droppableId (source m) \<and> index d = index (source m))"
    and "handleDragEnd projectId respond boardsRead cardsRead m st store = Inr e"
  obtains sc dc where
    "local_move (cards st) (droppableId (source m)) (index (source m)) (droppableId d) (index d)
     = Inr (sc, dc)"
    and "e = persist_move projectId respond boardsRead cardsRead
               (move_updates (draggableId m) (droppableId (source m)) (droppableId d) (index d)
                  sc dc)
               (st\<lparr>cards := (cards st)(droppableId (source m) \<mapsto> sc, droppableId d \<mapsto> dc)\<rparr>)
               store"
proof -
  have n: "(droppableId d = droppableId (source m) \<and> index d = index (source m)) = False"
    using assms(2) by simp
  show ?thesis
    using assms(3) that
    by (simp only: handleDragEnd_def Let_def assms(1) n option.case if_False)
       (auto split: sum.splits prod.splits)
qed

lemma displayed_persist_move [simp]:
  "displayed (persist_move projectId respond boardsRead cardsRead us optimistic store) = optimistic"
  by (simp add: persist_move_def split: prod.splits)

lemma writes_persist_move:
  "writes (persist_move projectId respond boardsRead cardsRead us optimistic store)
   = fst (issue us 0 respond (card_rows store))"
  by (simp add: persist_move_def split: prod.splits)

lemma cards_of_upd: "cards_of (m(b \<mapsto> cs)) b' = (if b' = b then cs else cards_of m b')"
  by (simp add: cards_of_def)

lemma move_updates_enumerate:
  "move_updates cardId src dst di sc dc
   = SetBoardPosition cardId dst di
     # map (\<lambda>(k, c). SetPosition (c_id c) (int k))
         (filter (\<lambda>(k, c). c_id c \<noteq> cardId) (enumerate 0 dc))
     @ (if src \<noteq> dst then map (\<lambda>(k, c). SetPosition (c_id c) (int k)) (enumerate 0 sc) else [])"
  by (simp add: move_updates_def position_updates_def filter_map comp_def case_prod_unfold)

lemma eval_z_to_middle:
  "handleDragEnd ''p'' (always Applied) ReadOk ReadOk
     \<lparr>destination = Some \<lparr>droppableId = ''B'', index = 1\<rparr>,
      source = \<lparr>droppableId = ''B'', index = 2\<rparr>, draggableId = ''z''\<rparr>
     (view [mk_board ''B'' 0]
        [''B'' \<mapsto> [mk_card ''x'' ''B'' 0, mk_card ''y'' ''B'' 1, mk_card ''z'' ''B'' 2]])
     \<lparr>board_rows = [(''p'', mk_board ''B'' 0)],
      card_rows = [mk_card ''x'' ''B'' 0, mk_card ''y'' ''B'' 1, mk_card ''z'' ''B'' 2]\<rparr>
   = Inr \<lparr>displayed = view [mk_board ''B'' 0]
            [''B'' \<mapsto> [mk_card ''x'' ''B'' 0, mk_card ''z'' ''B'' 2, mk_card ''y'' ''B'' 1]],
          state_after = view [mk_board ''B'' 0]
            [''B'' \<mapsto> [mk_card ''x'' ''B'' 0, mk_card ''z'' ''B'' 2, mk_card ''y'' ''B'' 1]],
          rows_after = [mk_card ''x'' ''B'' 0, mk_card ''y'' ''B'' 2, mk_card ''z'' ''B'' 1],
          writes = [SetBoardPosition ''z'' ''B'' 1, SetPosition ''x'' 0, SetPosition ''y'' 2],
          reloaded = False, reported = False\<rparr>"
proof -
  have lm: "local_move
              [''B'' \<mapsto> [mk_card ''x'' ''B'' 0, mk_card ''y'' ''B'' 1, mk_card ''z'' ''B'' 2]]
              ''B'' 2 ''B'' 1
            = Inr ([mk_card ''x'' ''B'' 0, mk_card ''y'' ''B'' 1],
                   [mk_card ''x'' ''B'' 0, mk_card ''z'' ''B'' 2, mk_card ''y'' ''B'' 1])"
    by (simp add: local_move_def splice_remove_def splice_insert_def splice_start_def
          cards_of_def mk_card_sel)
  have us: "move_updates ''z'' ''B'' ''B'' 1 [mk_card ''x'' ''B'' 0, mk_card ''y'' ''B'' 1]
              [mk_card ''x'' ''B'' 0, mk_card ''z'' ''B'' 2, mk_card ''y'' ''B'' 1]
            = [SetBoardPosition ''z'' ''B'' 1, SetPosition ''x'' 0, SetPosition ''y'' 2]"
    by (simp add: move_updates_def position_updates_def enumerate_eq_zip mk_card_sel)
  show ?thesis
    by (subst handleDragEnd_applied
          [where d = "\<lparr>droppableId = ''B'', index = 1\<rparr>"
             and sc = "[mk_card ''x'' ''B'' 0, mk_card ''y'' ''B'' 1]"
             and dc = "[mk_card ''x'' ''B'' 0, mk_card ''z'' ''B'' 2, mk_card ''y'' ''B'' 1]"])
       (simp_all add: view_sel lm us mk_card_sel apply_update_def)
qed

text \<open>
  C2 fails as stated. Board \<open>B\<close> holds \<open>[x, y, z]\<close> and \<open>z\<close> is moved from index 2 to
  index 1. The card \<open>x\<close> is at index 0 before and after the move, and the handler
  still sends a position update for it; the write list of the specification's
  wording has two entries, the handler's has three.
\<close>

theorem unchanged_index_written_counterexample:
  "handleDragEnd ''p'' (always Applied) ReadOk ReadOk
     \<lparr>destination = Some \<lparr>droppableId = ''B'', index = 1\<rparr>,
      source = \<lparr>droppableId = ''B'', index = 2\<rparr>, draggableId = ''z''\<rparr>
     (view [mk_board ''B'' 0]
        [''B'' \<mapsto> [mk_card ''x'' ''B'' 0, mk_card ''y'' ''B'' 1, mk_card ''z'' ''B'' 2]])
     \<lparr>board_rows = [(''p'', mk_board ''B'' 0)],
      card_rows = [mk_card ''x'' ''B'' 0, mk_card ''y'' ''B'' 1, mk_card ''z'' ''B'' 2]\<rparr>
   = Inr \<lparr>displayed = view [mk_board ''B'' 0]
            [''B'' \<mapsto> [mk_card ''x'' ''B'' 0, mk_card ''z'' ''B'' 2, mk_card ''y'' ''B'' 1]],
          state_after = view [mk_board ''B'' 0]
            [''B'' \<mapsto> [mk_card ''x'' ''B'' 0, mk_card ''z'' ''B'' 2, mk_card ''y'' ''B'' 1]],
          rows_after = [mk_card ''x'' ''B'' 0, mk_card ''y'' ''B'' 2, mk_card ''z'' ''B'' 1],
          writes = [SetBoardPosition ''z'' ''B'' 1, SetPosition ''x'' 0, SetPosition ''y'' 2],
          reloaded = False, reported = False\<rparr>
   \<and> spec_move_updates ''z'' ''B'' ''B'' 1
        [mk_card ''x'' ''B'' 0, mk_card ''y'' ''B'' 1, mk_card ''z'' ''B'' 2]
        [mk_card ''x'' ''B'' 0, mk_card ''y'' ''B'' 1, mk_card ''z'' ''B'' 2]
        [mk_card ''x'' ''B'' 0, mk_card ''z'' ''B'' 2, mk_card ''y'' ''B'' 1]
        [mk_card ''x'' ''B'' 0, mk_card ''z'' ''B'' 2, mk_card ''y'' ''B'' 1]
      = [SetBoardPosition ''z'' ''B'' 1, SetPosition ''y'' 2]
   \<and> index_of ''x'' [mk_card ''x'' ''B'' 0, mk_card ''y'' ''B'' 1, mk_card ''z'' ''B'' 2] = 0
   \<and> index_of ''x'' [mk_card ''x'' ''B'' 0, mk_card ''z'' ''B'' 2, mk_card ''y'' ''B'' 1] = 0
   \<and> SetPosition ''x'' 0
       \<in> set [SetBoardPosition ''z'' ''B'' 1, SetPosition ''x'' 0, SetPosition ''y'' 2]
   \<and> SetPosition ''x'' 0 \<notin> set [SetBoardPosition ''z'' ''B'' 1, SetPosition ''y'' 2]"
  by (simp add: eval_z_to_middle spec_move_updates_def index_of_def enumerate_eq_zip mk_card_sel)

text \<open>
  C2, as the code has it. For every move that is not a no-op and for which the
  handler returns, when no write throws, the writes sent are, in this order: one
  update setting the board and the position (the destination index) of the
  dragged card; one position update for every card of the new destination
  sequence other than the dragged card, carrying its new index; and, when the
  boards differ, one position update for every card of the new source sequence,
  carrying its new index. A card is written whether or not its index changed.
\<close>

theorem move_writes_every_sibling:
  assumes "destination m = Some d"
    and "\<not> (droppableId d = droppableId (source m) \<and> index d = index (source m))"
    and "handleDragEnd projectId respond boardsRead cardsRead m st store = Inr e"
    and "\<forall>j. respond j \<noteq> Threw"
  shows "writes e =
           SetBoardPosition (draggableId m) (droppableId d) (index d)
           # map (\<lambda>(k, c). SetPosition (c_id c) (int k))
               (filter (\<lambda>(k, c). c_id c \<noteq> draggableId m)
                  (enumerate 0 (cards_of (cards (displayed e)) (droppableId d))))
           @ (if droppableId (source m) \<noteq> droppableId d
              then map (\<lambda>(k, c). SetPosition (c_id c) (int k))
                     (enumerate 0 (cards_of (cards (displayed e)) (droppableId (source m))))
              else [])"
proof -
  obtain sc dc where
    e: "e = persist_move projectId respond boardsRead cardsRead
               (move_updates (draggableId m) (droppableId (source m)) (droppableId d) (index d)
                  sc dc)
               (st\<lparr>cards := (cards st)(droppableId (source m) \<mapsto> sc, droppableId d \<mapsto> dc)\<rparr>)
               store"
    using handleDragEnd_returns [OF assms(1,2,3)] by blast
  have w: "writes e = move_updates (draggableId m) (droppableId (source m)) (droppableId d)
                        (index d) sc dc"
    unfolding e writes_persist_move using issue_no_throw [of respond] assms(4) by simp
  have dst: "cards_of (cards (displayed e)) (droppableId d) = dc"
    unfolding e by (simp add: cards_of_upd)
  have src: "droppableId (source m) \<noteq> droppableId d
             \<Longrightarrow> cards_of (cards (displayed e)) (droppableId (source m)) = sc"
    unfolding e by (simp add: cards_of_upd)
  show ?thesis
    unfolding w dst move_updates_enumerate using src by simp
qed

theorem move_writes_every_sibling_witness:
  "writes
     \<lparr>displayed = view [mk_board ''B'' 0]
        [''B'' \<mapsto> [mk_card ''x'' ''B'' 0, mk_card ''z'' ''B'' 2, mk_card ''y'' ''B'' 1]],
      state_after = view [mk_board ''B'' 0]
        [''B'' \<mapsto> [mk_card ''x'' ''B'' 0, mk_card ''z'' ''B'' 2, mk_card ''y'' ''B'' 1]],
      rows_after = [mk_card ''x'' ''B'' 0, mk_card ''y'' ''B'' 2, mk_card ''z'' ''B'' 1],
      writes = [SetBoardPosition ''z'' ''B'' 1, SetPosition ''x'' 0, SetPosition ''y'' 2],
      reloaded = False, reported = False\<rparr>
   = SetBoardPosition ''z'' ''B'' 1
     # map (\<lambda>(k, c). SetPosition (c_id c) (int k))
         (filter (\<lambda>(k, c). c_id c \<noteq> ''z'')
            (enumerate 0 [mk_card ''x'' ''B'' 0, mk_card ''z'' ''B'' 2, mk_card ''y'' ''B'' 1]))"
  using move_writes_every_sibling
    [where d = "\<lparr>droppableId = ''B'', index = 1\<rparr>" and respond = "always Applied",
     OF _ _ eval_z_to_middle]
  by (simp add: always_def view_sel cards_of_def)

section \<open>The optimistic view\<close>

lemma eval_x_to_end:
  "handleDragEnd ''p'' (always Applied) ReadOk ReadOk
     \<lparr>destination = Some \<lparr>droppableId = ''B'', index = 2\<rparr>,
      source = \<lparr>droppableId = ''B'', index = 0\<rparr>, draggableId = ''x''\<rparr>
     (view [mk_board ''B'' 0]
        [''B'' \<mapsto> [mk_card ''x'' ''B'' 0, mk_card ''y'' ''B'' 1, mk_card ''z'' ''B'' 2]])
     \<lparr>board_rows = [(''p'', mk_board ''B'' 0)],
      card_rows = [mk_card ''x'' ''B'' 0, mk_card ''y'' ''B'' 1, mk_card ''z'' ''B'' 2]\<rparr>
   = Inr \<lparr>displayed = view [mk_board ''B'' 0]
            [''B'' \<mapsto> [mk_card ''y'' ''B'' 1, mk_card ''z'' ''B'' 2, mk_card ''x'' ''B'' 0]],
          state_after = view [mk_board ''B'' 0]
            [''B'' \<mapsto> [mk_card ''y'' ''B'' 1, mk_card ''z'' ''B'' 2, mk_card ''x'' ''B'' 0]],
          rows_after = [mk_card ''x'' ''B'' 2, mk_card ''y'' ''B'' 0, mk_card ''z'' ''B'' 1],
          writes = [SetBoardPosition ''x'' ''B'' 2, SetPosition ''y'' 0, SetPosition ''z'' 1],
          reloaded = False, reported = False\<rparr>"
  by (subst handleDragEnd_applied
        [where d = "\<lparr>droppableId = ''B'', index = 2\<rparr>"
           and sc = "[mk_card ''y'' ''B'' 1, mk_card ''z'' ''B'' 2]"
           and dc = "[mk_card ''y'' ''B'' 1, mk_card ''z'' ''B'' 2, mk_card ''x'' ''B'' 0]"])
     (simp_all add: view_sel local_move_x_to_end updates_x_to_end mk_card_sel apply_update_def)

text \<open>
  C4 fails as stated. Board \<open>B\<close> holds \<open>[x, y, z]\<close> with position fields \<open>[0, 1, 2]\<close> and
  \<open>x\<close> is moved to index 2. The sequence handed to the display is \<open>[y, z, x]\<close>, and the
  position fields of its cards are \<open>[1, 2, 0]\<close>, not their indices \<open>[0, 1, 2]\<close>.
\<close>

theorem stale_positions_counterexample:
  "handleDragEnd ''p'' (always Applied) ReadOk ReadOk
     \<lparr>destination = Some \<lparr>droppableId = ''B'', index = 2\<rparr>,
      source = \<lparr>droppableId = ''B'', index = 0\<rparr>, draggableId = ''x''\<rparr>
     (view [mk_board ''B'' 0]
        [''B'' \<mapsto> [mk_card ''x'' ''B'' 0, mk_card ''y'' ''B'' 1, mk_card ''z'' ''B'' 2]])
     \<lparr>board_rows = [(''p'', mk_board ''B'' 0)],
      card_rows = [mk_card ''x'' ''B'' 0, mk_card ''y'' ''B'' 1, mk_card ''z'' ''B'' 2]\<rparr>
   = Inr \<lparr>displayed = view [mk_board ''B'' 0]
            [''B'' \<mapsto> [mk_card ''y'' ''B'' 1, mk_card ''z'' ''B'' 2, mk_card ''x'' ''B'' 0]],
          state_after = view [mk_board ''B'' 0]
            [''B'' \<mapsto> [mk_card ''y'' ''B'' 1, mk_card ''z'' ''B'' 2, mk_card ''x'' ''B'' 0]],
          rows_after = [mk_card ''x'' ''B'' 2, mk_card ''y'' ''B'' 0, mk_card ''z'' ''B'' 1],
          writes = [SetBoardPosition ''x'' ''B'' 2, SetPosition ''y'' 0, SetPosition ''z'' 1],
          reloaded = False, reported = False\<rparr>
   \<and> map position [mk_card ''y'' ''B'' 1, mk_card ''z'' ''B'' 2, mk_card ''x'' ''B'' 0] = [1, 2, 0]
   \<and> [1, 2, 0] \<noteq> [0, 1, 2 :: int]"
  by (simp add: eval_x_to_end mk_card_sel)

text \<open>
  C4, as the code has it. For every move that is not a no-op, with the source index
  inside the source sequence \<open>S\<close> and the destination index inside the destination
  sequence \<open>D\<close> (\<open>S\<close> without the moved card when the boards are the same), the view
  handed to the display before any write shows \<open>D\<close> with the moved card inserted at
  the destination index, its board reference set to the destination board, and,
  when the boards differ, \<open>S\<close> without the moved card. No position field is
  assigned in memory: the cards show the position fields they had before the
  move. The new 0-based indices are only computed for the writes.
\<close>

theorem displayed_after_move:
  assumes "destination m = Some d"
    and "\<not> (droppableId d = droppableId (source m) \<and> index d = index (source m))"
    and "S = cards_of (cards st) (droppableId (source m))"
    and "D = (if droppableId (source m) = droppableId d
              then take (nat (index (source m))) S @ drop (Suc (nat (index (source m)))) S
              else cards_of (cards st) (droppableId d))"
    and "0 \<le> index (source m)" and "index (source m) < int (length S)"
    and "0 \<le> index d" and "index d \<le> int (length D)"
  shows "\<exists>e. handleDragEnd projectId respond boardsRead cardsRead m st store = Inr e
          \<and> cards_of (cards (displayed e)) (droppableId d)
              = take (nat (index d)) D
                @ (S ! nat (index (source m)))\<lparr>board_id := droppableId d\<rparr>
                # drop (nat (index d)) D
          \<and> (droppableId (source m) \<noteq> droppableId d \<longrightarrow>
               cards_of (cards (displayed e)) (droppableId (source m))
               = take (nat (index (source m))) S @ drop (Suc (nat (index (source m)))) S)
          \<and> map position (cards_of (cards (displayed e)) (droppableId d))
              = take (nat (index d)) (map position D)
                @ position (S ! nat (index (source m)))
                # drop (nat (index d)) (map position D)
          \<and> map snd (position_updates (cards_of (cards (displayed e)) (droppableId d)))
              = map int [0..<Suc (length D)]"
proof -
  let ?sc = "take (nat (index (source m))) S @ drop (Suc (nat (index (source m)))) S"
  let ?dc = "take (nat (index d)) D
             @ (S ! nat (index (source m)))\<lparr>board_id := droppableId d\<rparr> # drop (nat (index d)) D"
  have lm: "local_move (cards st) (droppableId (source m)) (index (source m)) (droppableId d)
              (index d) = Inr (?sc, ?dc)"
    by (rule local_move_in_range [OF assms(3,5,6,4,7,8)])
  obtain ws rows' threw where
    i: "issue (move_updates (draggableId m) (droppableId (source m)) (droppableId d) (index d)
                 ?sc ?dc) 0 respond (card_rows store) = (ws, rows', threw)"
    using prod_cases3 by blast
  note run = handleDragEnd_moved [OF assms(1,2) lm i, of projectId boardsRead cardsRead]
  have len: "length ?dc = Suc (length D)"
    using assms(7,8) by simp
  have pu: "map snd (position_updates ?dc) = map int [0..<Suc (length D)]"
    unfolding snd_position_updates len ..
  show ?thesis
    unfolding run
    apply (rule exI, rule conjI, rule refl)
    apply (simp add: cards_of_upd take_map drop_map pu del: upt_Suc)
    done
qed

theorem displayed_after_move_witness:
  "(\<exists>e. handleDragEnd ''p'' (always Applied) ReadOk ReadOk
          \<lparr>destination = Some \<lparr>droppableId = ''B'', index = 2\<rparr>,
           source = \<lparr>droppableId = ''B'', index = 0\<rparr>, draggableId = ''x''\<rparr>
          (view [mk_board ''B'' 0]
             [''B'' \<mapsto> [mk_card ''x'' ''B'' 0, mk_card ''y'' ''B'' 1, mk_card ''z'' ''B'' 2]])
          \<lparr>board_rows = [(''p'', mk_board ''B'' 0)],
           card_rows = [mk_card ''x'' ''B'' 0, mk_card ''y'' ''B'' 1, mk_card ''z'' ''B'' 2]\<rparr>
        = Inr e
      \<and> cards_of (cards (displayed e)) ''B''
          = [mk_card ''y'' ''B'' 1, mk_card ''z'' ''B'' 2, mk_card ''x'' ''B'' 0]
      \<and> map position (cards_of (cards (displayed e)) ''B'') = [1, 2, 0]
      \<and> map snd (position_updates (cards_of (cards (displayed e)) ''B'')) = [0, 1, 2])
   \<and> (\<exists>e. handleDragEnd ''p'' (always Applied) ReadOk ReadOk
          \<lparr>destination = Some \<lparr>droppableId = ''B'', index = 1\<rparr>,
           source = \<lparr>droppableId = ''A'', index = 0\<rparr>, draggableId = ''p1''\<rparr>
          (view [mk_board ''A'' 0, mk_board ''B'' 1]
             [''A'' \<mapsto> [mk_card ''p1'' ''A'' 0, mk_card ''q1'' ''A'' 1],
              ''B'' \<mapsto> [mk_card ''r1'' ''B'' 0]])
          \<lparr>board_rows = [(''p'', mk_board ''A'' 0), (''p'', mk_board ''B'' 1)],
           card_rows = [mk_card ''p1'' ''A'' 0, mk_card ''q1'' ''A'' 1, mk_card ''r1'' ''B'' 0]\<rparr>
        = Inr e
      \<and> cards_of (cards (displayed e)) ''B'' = [mk_card ''r1'' ''B'' 0, mk_card ''p1'' ''B'' 0]
      \<and> cards_of (cards (displayed e)) ''A'' = [mk_card ''q1'' ''A'' 1]
      \<and> map position (cards_of (cards (displayed e)) ''B'') = [0, 0]
      \<and> map snd (position_updates (cards_of (cards (displayed e)) ''B'')) = [0, 1])"
  (is "?same \<and> ?cross")
proof -
  have a: ?same
    using displayed_after_move
    [where m = "\<lparr>destination = Some \<lparr>droppableId = ''B'', index = 2\<rparr>,
                 source = \<lparr>droppableId = ''B'', index = 0\<rparr>, draggableId = ''x''\<rparr>"
       and d = "\<lparr>droppableId = ''B'', index = 2\<rparr>"
       and S = "[mk_card ''x'' ''B'' 0, mk_card ''y'' ''B'' 1, mk_card ''z'' ''B'' 2]"
       and D = "[mk_card ''y'' ''B'' 1, mk_card ''z'' ''B'' 2]"
       and st = "view [mk_board ''B'' 0]
             [''B'' \<mapsto> [mk_card ''x'' ''B'' 0, mk_card ''y'' ''B'' 1, mk_card ''z'' ''B'' 2]]"
       and projectId = "''p''" and respond = "always Applied" and boardsRead = ReadOk
       and cardsRead = ReadOk
       and store = "\<lparr>board_rows = [(''p'', mk_board ''B'' 0)],
           card_rows = [mk_card ''x'' ''B'' 0, mk_card ''y'' ''B'' 1, mk_card ''z'' ''B'' 2]\<rparr>"]
    by (simp add: view_sel cards_of_def mk_card_sel)
  have b: ?cross
    using displayed_after_move
    [where m = "\<lparr>destination = Some \<lparr>droppableId = ''B'', index = 1\<rparr>,
                 source = \<lparr>droppableId = ''A'', index = 0\<rparr>, draggableId = ''p1''\<rparr>"
       and d = "\<lparr>droppableId = ''B'', index = 1\<rparr>"
       and S = "[mk_card ''p1'' ''A'' 0, mk_card ''q1'' ''A'' 1]"
       and D = "[mk_card ''r1'' ''B'' 0]"
       and st = "view [mk_board ''A'' 0, mk_board ''B'' 1]
             [''A'' \<mapsto> [mk_card ''p1'' ''A'' 0, mk_card ''q1'' ''A'' 1],
              ''B'' \<mapsto> [mk_card ''r1'' ''B'' 0]]"
       and projectId = "''p''" and respond = "always Applied" and boardsRead = ReadOk
       and cardsRead = ReadOk
       and store = "\<lparr>board_rows = [(''p'', mk_board ''A'' 0), (''p'', mk_board ''B'' 1)],
           card_rows = [mk_card ''p1'' ''A'' 0, mk_card ''q1'' ''A'' 1, mk_card ''r1'' ''B'' 0]\<rparr>"]
    by (simp add: view_sel cards_of_def mk_card_sel)
  show ?thesis
    using a b by (rule conjI)
qed

section \<open>Sequences of moves keep positions dense\<close>

subsection \<open>What a list of writes does to one row\<close>

lemma fold_apply_update: "fold apply_update us rows = map (fold update_row us) rows"
proof (induction us arbitrary: rows)
  case Nil
  show ?case by simp
next
  case (Cons u us)
  show ?case
    by (simp add: Cons.IH) (simp add: apply_update_def)
qed

lemma c_id_update_row [simp]: "c_id (update_row u r) = c_id r"
  by (cases u) auto

lemma c_id_fold_update_row [simp]: "c_id (fold update_row us r) = c_id r"
  by (induction us arbitrary: r) auto

lemma fold_positions_other:
  "c_id r \<notin> fst ` set ps \<Longrightarrow> fold update_row (map (\<lambda>(i, p). SetPosition i p) ps) r = r"
  by (induction ps) auto

lemma fold_positions_hit:
  assumes "distinct (map fst ps)" and "(c_id r, p) \<in> set ps"
  shows "fold update_row (map (\<lambda>(i, p). SetPosition i p) ps) r = r\<lparr>position := p\<rparr>"
  using assms
proof (induction ps arbitrary: r)
  case Nil
  then show ?case by simp
next
  case (Cons a ps)
  obtain i q where a: "a = (i, q)"
    by (cases a)
  show ?case
  proof (cases "c_id r = i")
    case True
    have notin: "i \<notin> fst ` set ps"
      using Cons.prems(1) a by simp
    then have "q = p"
      using Cons.prems(2) a True by (auto simp: image_iff)
    moreover have "fold update_row (map (\<lambda>(i, p). SetPosition i p) ps) (r\<lparr>position := q\<rparr>)
                   = r\<lparr>position := q\<rparr>"
      using notin True by (intro fold_positions_other) simp
    ultimately show ?thesis
      using a True by simp
  next
    case False
    then have "(c_id r, p) \<in> set ps"
      using Cons.prems(2) a by auto
    moreover have "distinct (map fst ps)"
      using Cons.prems(1) by simp
    ultimately show ?thesis
      using Cons.IH [of r] a False by simp
  qed
qed

lemma board_id_fold_positions [simp]:
  "board_id (fold update_row (map (\<lambda>(i, p). SetPosition i p) ps) r) = board_id r"
  by (induction ps arbitrary: r) auto

lemma length_position_updates [simp]: "length (position_updates cs) = length cs"
  by (simp add: position_updates_def)

lemma nth_position_updates:
  "k < length cs \<Longrightarrow> position_updates cs ! k = (c_id (cs ! k), int k)"
  by (simp add: position_updates_def nth_enumerate_eq)

lemma in_position_updates:
  "k < length cs \<Longrightarrow> (c_id (cs ! k), int k) \<in> set (position_updates cs)"
  using nth_mem [of k "position_updates cs"] by (simp add: nth_position_updates)

lemma ids_position_updates: "fst ` set (position_updates cs) = c_id ` set cs"
  using fst_position_updates [of cs] by (metis set_map)

subsection \<open>The writes of one move, row by row\<close>

lemma fold_move_updates:
  "fold update_row (move_updates cardId src dst di sc dc) r
   = fold update_row
       (if src \<noteq> dst then map (\<lambda>(i, p). SetPosition i p) (position_updates sc) else [])
       (fold update_row
          (map (\<lambda>(i, p). SetPosition i p)
             (filter (\<lambda>(i, p). i \<noteq> cardId) (position_updates dc)))
          (update_row (SetBoardPosition cardId dst di) r))"
  by (simp add: move_updates_def)

lemma not_in_filtered:
  "x = cardId \<or> x \<notin> fst ` set ps \<Longrightarrow> x \<notin> fst ` set (filter (\<lambda>(i, p). i \<noteq> cardId) ps)"
  by (auto simp: image_iff)

lemma row_moved:
  assumes "c_id r = cardId" and "src \<noteq> dst \<longrightarrow> cardId \<notin> c_id ` set sc"
  shows "fold update_row (move_updates cardId src dst di sc dc) r
         = r\<lparr>board_id := dst, position := di\<rparr>"
proof -
  let ?r1 = "r\<lparr>board_id := dst, position := di\<rparr>"
  have 1: "update_row (SetBoardPosition cardId dst di) r = ?r1"
    using assms(1) by simp
  have 2: "fold update_row
             (map (\<lambda>(i, p). SetPosition i p)
                (filter (\<lambda>(i, p). i \<noteq> cardId) (position_updates dc))) ?r1 = ?r1"
    by (rule fold_positions_other, rule not_in_filtered) (simp add: assms(1))
  have 3: "fold update_row
             (if src \<noteq> dst then map (\<lambda>(i, p). SetPosition i p) (position_updates sc) else [])
             ?r1 = ?r1"
  proof (cases "src = dst")
    case True
    then show ?thesis by simp
  next
    case False
    then have "c_id ?r1 \<notin> fst ` set (position_updates sc)"
      using assms by (simp add: ids_position_updates)
    then show ?thesis
      using False by (simp add: fold_positions_other)
  qed
  show ?thesis
    unfolding fold_move_updates 1 2 3 ..
qed

lemma row_other:
  assumes "c_id r \<noteq> cardId" and "c_id r \<notin> c_id ` set dc"
    and "src \<noteq> dst \<longrightarrow> c_id r \<notin> c_id ` set sc"
  shows "fold update_row (move_updates cardId src dst di sc dc) r = r"
proof -
  have 1: "update_row (SetBoardPosition cardId dst di) r = r"
    using assms(1) by simp
  have 2: "fold update_row
             (map (\<lambda>(i, p). SetPosition i p)
                (filter (\<lambda>(i, p). i \<noteq> cardId) (position_updates dc))) r = r"
    by (rule fold_positions_other, rule not_in_filtered)
       (simp add: ids_position_updates assms(2))
  have 3: "fold update_row
             (if src \<noteq> dst then map (\<lambda>(i, p). SetPosition i p) (position_updates sc) else [])
             r = r"
    using assms(3) by (simp add: fold_positions_other ids_position_updates)
  show ?thesis
    unfolding fold_move_updates 1 2 3 ..
qed

lemma row_in_dest:
  assumes "c_id r \<noteq> cardId" and "distinct (map c_id dc)" and "k < length dc"
    and "c_id r = c_id (dc ! k)" and "src \<noteq> dst \<longrightarrow> c_id r \<notin> c_id ` set sc"
  shows "fold update_row (move_updates cardId src dst di sc dc) r = r\<lparr>position := int k\<rparr>"
proof -
  let ?r1 = "r\<lparr>position := int k\<rparr>"
  have 1: "update_row (SetBoardPosition cardId dst di) r = r"
    using assms(1) by simp
  have d: "distinct (map fst (filter (\<lambda>(i, p). i \<noteq> cardId) (position_updates dc)))"
    using assms(2) by (simp add: distinct_map_filter fst_position_updates)
  have m: "(c_id r, int k) \<in> set (filter (\<lambda>(i, p). i \<noteq> cardId) (position_updates dc))"
    using in_position_updates [OF assms(3)] assms(1,4) by simp
  have 2: "fold update_row
             (map (\<lambda>(i, p). SetPosition i p)
                (filter (\<lambda>(i, p). i \<noteq> cardId) (position_updates dc))) r = ?r1"
    using d m by (rule fold_positions_hit)
  have 3: "fold update_row
             (if src \<noteq> dst then map (\<lambda>(i, p). SetPosition i p) (position_updates sc) else [])
             ?r1 = ?r1"
    using assms(5) by (simp add: fold_positions_other ids_position_updates)
  show ?thesis
    unfolding fold_move_updates 1 2 3 ..
qed

lemma row_in_source:
  assumes "c_id r \<noteq> cardId" and "c_id r \<notin> c_id ` set dc" and "src \<noteq> dst"
    and "distinct (map c_id sc)" and "k < length sc" and "c_id r = c_id (sc ! k)"
  shows "fold update_row (move_updates cardId src dst di sc dc) r = r\<lparr>position := int k\<rparr>"
proof -
  have 1: "update_row (SetBoardPosition cardId dst di) r = r"
    using assms(1) by simp
  have 2: "fold update_row
             (map (\<lambda>(i, p). SetPosition i p)
                (filter (\<lambda>(i, p). i \<noteq> cardId) (position_updates dc))) r = r"
    by (rule fold_positions_other, rule not_in_filtered)
       (simp add: ids_position_updates assms(2))
  have d: "distinct (map fst (position_updates sc))"
    using assms(4) by (simp add: fst_position_updates)
  have m: "(c_id r, int k) \<in> set (position_updates sc)"
    using in_position_updates [OF assms(5)] assms(6) by simp
  have 3: "fold update_row
             (if src \<noteq> dst then map (\<lambda>(i, p). SetPosition i p) (position_updates sc) else [])
             r = r\<lparr>position := int k\<rparr>"
    using assms(3) fold_positions_hit [OF d m] by simp
  show ?thesis
    unfolding fold_move_updates 1 2 3 ..
qed

lemma row_board_kept:
  assumes "c_id r \<noteq> cardId"
  shows "board_id (fold update_row (move_updates cardId src dst di sc dc) r) = board_id r"
  unfolding fold_move_updates using assms by (cases "src = dst") simp_all

subsection \<open>Consequences of the agreement between view and table\<close>

lemma row_unique:
  "distinct (map c_id rows) \<Longrightarrow> r \<in> set rows \<Longrightarrow> r' \<in> set rows \<Longrightarrow> c_id r = c_id r'
   \<Longrightarrow> r = r'"
  by (auto simp: distinct_map dest: inj_onD)

lemma sync_rows_distinct: "in_sync bs m rows \<Longrightarrow> distinct (map c_id rows)"
  by (simp add: in_sync_def)

lemma sync_row:
  "in_sync bs m rows \<Longrightarrow> b \<in> set bs \<Longrightarrow> k < length (cards_of m b)
   \<Longrightarrow> \<exists>r \<in> set rows. c_id r = c_id (cards_of m b ! k) \<and> board_id r = b \<and> position r = int k"
  by (simp add: in_sync_def)

lemma sync_in_seq:
  "in_sync bs m rows \<Longrightarrow> r \<in> set rows \<Longrightarrow> board_id r \<in> set bs
   \<Longrightarrow> c_id r \<in> c_id ` set (cards_of m (board_id r))"
  by (simp add: in_sync_def)

lemma sync_member:
  assumes "in_sync bs m rows" and "b \<in> set bs" and "c \<in> set (cards_of m b)"
  shows "\<exists>r \<in> set rows. c_id r = c_id c \<and> board_id r = b"
proof -
  obtain k where "k < length (cards_of m b)" and "cards_of m b ! k = c"
    using assms(3) by (auto simp: in_set_conv_nth)
  then show ?thesis
    using sync_row [OF assms(1,2), of k] by auto
qed

lemma sync_owner:
  assumes "in_sync bs m rows" and "b \<in> set bs" and "c \<in> set (cards_of m b)"
    and "r \<in> set rows" and "c_id r = c_id c"
  shows "board_id r = b"
proof -
  obtain r' where "r' \<in> set rows" and "c_id r' = c_id c" and "board_id r' = b"
    using sync_member [OF assms(1,2,3)] by auto
  moreover have "r = r'"
    using row_unique [OF sync_rows_distinct [OF assms(1)] assms(4) \<open>r' \<in> set rows\<close>]
      assms(5) \<open>c_id r' = c_id c\<close> by simp
  ultimately show ?thesis by simp
qed

lemma sync_one_board:
  assumes "in_sync bs m rows" and "b \<in> set bs" and "b' \<in> set bs"
    and "c \<in> set (cards_of m b)" and "c' \<in> set (cards_of m b')" and "c_id c = c_id c'"
  shows "b = b'"
proof -
  obtain r where r: "r \<in> set rows" "c_id r = c_id c" "board_id r = b"
    using sync_member [OF assms(1,2,4)] by auto
  have "board_id r = b'"
    using sync_owner [OF assms(1,3,5) r(1)] r(2) assms(6) by simp
  then show ?thesis
    using r(3) by simp
qed

lemma sync_distinct:
  assumes "in_sync bs m rows" and "b \<in> set bs"
  shows "distinct (map c_id (cards_of m b))"
proof -
  have "k = k'"
    if k: "k < length (cards_of m b)" and k': "k' < length (cards_of m b)"
      and eq: "c_id (cards_of m b ! k) = c_id (cards_of m b ! k')" for k k'
  proof -
    obtain r where r: "r \<in> set rows" "c_id r = c_id (cards_of m b ! k)" "position r = int k"
      using sync_row [OF assms k] by auto
    obtain r' where r': "r' \<in> set rows" "c_id r' = c_id (cards_of m b ! k')"
      "position r' = int k'"
      using sync_row [OF assms k'] by auto
    have "r = r'"
      using row_unique [OF sync_rows_distinct [OF assms(1)] r(1) r'(1)] r(2) r'(2) eq
      by simp
    then show ?thesis
      using r(3) r'(3) by simp
  qed
  then show ?thesis
    by (auto simp: distinct_conv_nth)
qed

lemma filter_map_same:
  assumes "\<And>r. r \<in> set rows \<Longrightarrow> P (G r) = P r" and "\<And>r. r \<in> set rows \<Longrightarrow> P r \<Longrightarrow> G r = r"
  shows "filter P (map G rows) = filter P rows"
  using assms by (induction rows) auto

subsection \<open>One move keeps view and table in agreement\<close>

lemma move_keeps_sync:
  assumes sync: "in_sync bs m rows"
    and src: "src \<in> set bs" and dst: "dst \<in> set bs"
    and S: "S = cards_of m src" and i: "i < length S" and cid: "c_id (S ! i) = cardId"
    and D: "D = (if src = dst then take i S @ drop (Suc i) S else cards_of m dst)"
    and j: "j \<le> length D"
    and sc: "sc = take i S @ drop (Suc i) S"
    and dc: "dc = take j D @ (S ! i)\<lparr>board_id := dst\<rparr> # drop j D"
    and rows': "rows' = fold apply_update (move_updates cardId src dst (int j) sc dc) rows"
  shows "in_sync bs (m(src \<mapsto> sc, dst \<mapsto> dc)) rows'"
    and "b \<notin> set bs \<Longrightarrow> filter (\<lambda>r. board_id r = b) rows' = filter (\<lambda>r. board_id r = b) rows"
proof -
  define G where "G = fold update_row (move_updates cardId src dst (int j) sc dc)"
  define M where "M = (S ! i)\<lparr>board_id := dst\<rparr>"
  define x where "x = S ! i"
  define xs where "xs = take i S"
  define ys where "ys = drop (Suc i) S"
  define us where "us = take j D"
  define vs where "vs = drop j D"
  have rows_map: "rows' = map G rows"
    unfolding rows' G_def by (rule fold_apply_update)
  have dr: "distinct (map c_id rows)"
    using sync by (rule sync_rows_distinct)
  have Sx: "S = xs @ x # ys"
    unfolding xs_def ys_def x_def using i by (rule id_take_nth_drop)
  have scx: "sc = xs @ ys"
    unfolding sc xs_def ys_def ..
  have cx: "c_id x = cardId"
    unfolding x_def by (rule cid)
  have cM: "c_id M = cardId"
    unfolding M_def using cid by simp
  have dS: "distinct (map c_id S)"
    unfolding S using sync src by (rule sync_distinct)
  have dxs: "distinct (map c_id (xs @ x # ys))"
    using dS Sx by simp
  have dsc: "distinct (map c_id sc)"
    using dxs scx by simp
  have sc_no_card: "cardId \<notin> c_id ` set sc"
    using dxs scx cx by auto
  have sc_sub: "set sc \<subseteq> set S"
    using Sx scx by auto
  have sc_rest: "c \<in> set sc" if "c \<in> set S" and "c_id c \<noteq> cardId" for c
    using that Sx scx cx by auto
  have x_src: "x \<in> set (cards_of m src)"
    using Sx S by simp
  have D_sub: "set D \<subseteq> set (cards_of m dst)"
    using D sc sc_sub S by (auto split: if_splits)
  have dst_rest: "c \<in> set D" if "c \<in> set (cards_of m dst)" and "c_id c \<noteq> cardId" for c
  proof (cases "src = dst")
    case True
    then show ?thesis
      using that sc_rest [of c] D sc S by simp
  next
    case False
    then show ?thesis
      using that D by simp
  qed
  have D_no_card: "cardId \<notin> c_id ` set D"
  proof (cases "src = dst")
    case True
    then show ?thesis
      using sc_no_card D sc by simp
  next
    case False
    show ?thesis
    proof
      assume "cardId \<in> c_id ` set D"
      then obtain c where c: "c \<in> set (cards_of m dst)" "c_id c = cardId"
        using D False by auto
      have "src = dst"
        using sync_one_board [OF sync src dst x_src c(1)] cx c(2) by simp
      then show False
        using False by simp
    qed
  qed
  have dD: "distinct (map c_id D)"
  proof (cases "src = dst")
    case True
    then show ?thesis
      using dsc D sc by simp
  next
    case False
    then show ?thesis
      using sync_distinct [OF sync dst] D by simp
  qed
  have Dx: "D = us @ vs"
    unfolding us_def vs_def by simp
  have len_us: "length us = j"
    unfolding us_def using j by simp
  have dcx: "dc = us @ M # vs"
    unfolding dc us_def vs_def M_def ..
  have ddc: "distinct (map c_id dc)"
    using dD D_no_card Dx dcx cM by auto
  have dcj: "dc ! j = M" and jlt: "j < length dc"
    using dcx len_us by (auto simp: nth_append)
  have set_dc: "set dc = insert M (set D)"
    using dcx Dx by auto
  have apart: "c_id c \<noteq> c_id c'" if "src \<noteq> dst" and "c \<in> set sc" and "c' \<in> set dc" for c c'
  proof
    assume eq: "c_id c = c_id c'"
    have c_src: "c \<in> set (cards_of m src)"
      using that(2) sc_sub S by auto
    have nc: "c_id c \<noteq> cardId"
      using that(2) sc_no_card by auto
    then have "c' \<in> set D"
      using that(3) set_dc cM eq by auto
    then have "c' \<in> set (cards_of m dst)"
      using D_sub by auto
    then have "src = dst"
      using sync_one_board [OF sync src dst c_src] eq by simp
    then show False
      using that(1) by simp
  qed
  obtain r0 where r0: "r0 \<in> set rows" "c_id r0 = cardId" "board_id r0 = src"
    using sync_member [OF sync src x_src] cx by auto
  have G_card: "G r = r\<lparr>board_id := dst, position := int j\<rparr>" if "c_id r = cardId" for r
    unfolding G_def using that sc_no_card by (intro row_moved) auto
  have G_board: "board_id (G r) = board_id r" if "c_id r \<noteq> cardId" for r
    unfolding G_def using that by (rule row_board_kept)
  have G_id [simp]: "c_id (G r) = c_id r" for r
    unfolding G_def by simp
  have new_seq: "cards_of (m(src \<mapsto> sc, dst \<mapsto> dc)) b'
                 = (if b' = dst then dc else if b' = src then sc else cards_of m b')" for b'
    by (simp add: cards_of_def)
  have G_dest: "G r = r\<lparr>position := int k\<rparr>"
    if "c_id r \<noteq> cardId" and "k < length dc" and "c_id r = c_id (dc ! k)" for r k
  proof -
    have in_dc: "dc ! k \<in> set dc"
      using that(2) by simp
    have "src \<noteq> dst \<longrightarrow> c_id r \<notin> c_id ` set sc"
    proof (intro impI notI)
      assume ne: "src \<noteq> dst" and "c_id r \<in> c_id ` set sc"
      then obtain c where "c \<in> set sc" and "c_id c = c_id r"
        by auto
      then show False
        using apart [OF ne _ in_dc, of c] that(3) by simp
    qed
    then show ?thesis
      unfolding G_def using that ddc by (intro row_in_dest) auto
  qed
  have G_source: "G r = r\<lparr>position := int k\<rparr>"
    if "src \<noteq> dst" and "k < length sc" and "c_id r = c_id (sc ! k)" for r k
  proof -
    have in_sc: "sc ! k \<in> set sc"
      using that(2) by simp
    have "c_id r \<noteq> cardId"
      using in_sc that(3) sc_no_card by (auto simp: image_iff)
    moreover have "c_id r \<notin> c_id ` set dc"
    proof
      assume "c_id r \<in> c_id ` set dc"
      then obtain c' where "c' \<in> set dc" and "c_id c' = c_id r"
        by auto
      then show False
        using apart [OF that(1) in_sc, of c'] that(3) by simp
    qed
    ultimately show ?thesis
      unfolding G_def using that dsc by (intro row_in_source) auto
  qed
  have G_other: "G r = r"
    if "r \<in> set rows" and "board_id r \<noteq> src" and "board_id r \<noteq> dst" for r
  proof -
    have own: "c_id r \<noteq> c_id c" if "c \<in> set (cards_of m src) \<union> set (cards_of m dst)" for c
      using that sync_owner [OF sync src _ \<open>r \<in> set rows\<close>, of c]
        sync_owner [OF sync dst _ \<open>r \<in> set rows\<close>, of c]
        \<open>board_id r \<noteq> src\<close> \<open>board_id r \<noteq> dst\<close> by auto
    have 1: "c_id r \<noteq> cardId"
      using own [of x] x_src cx by auto
    have 2: "c_id r \<notin> c_id ` set dc"
      using own set_dc D_sub cM 1 by (auto simp: image_iff)
    have 3: "c_id r \<notin> c_id ` set sc"
      using own sc_sub S by (auto simp: image_iff)
    show ?thesis
      unfolding G_def using 1 2 3 by (intro row_other) auto
  qed
  have J1: "\<exists>r' \<in> set rows'. c_id r' = c_id (cards_of (m(src \<mapsto> sc, dst \<mapsto> dc)) b' ! k)
              \<and> board_id r' = b' \<and> position r' = int k"
    if b': "b' \<in> set bs" and k: "k < length (cards_of (m(src \<mapsto> sc, dst \<mapsto> dc)) b')" for b' k
  proof -
    consider (dest) "b' = dst" | (source) "b' \<noteq> dst" "b' = src" | (other) "b' \<noteq> dst" "b' \<noteq> src"
      by blast
    then show ?thesis
    proof cases
      case dest
      have kdc: "k < length dc"
        using k dest by (simp add: new_seq)
      show ?thesis
      proof (cases "c_id (dc ! k) = cardId")
        case True
        have "k = j"
          using ddc kdc jlt True dcj cM by (auto simp: distinct_conv_nth)
        then have "c_id (G r0) = c_id (dc ! k) \<and> board_id (G r0) = dst \<and> position (G r0) = int k"
          using G_card [OF r0(2)] r0(2) True by simp
        then show ?thesis
          using r0(1) dest rows_map by (auto simp: new_seq)
      next
        case False
        have "dc ! k \<in> set D"
          using kdc set_dc cM False nth_mem [OF kdc] by auto
        then obtain r where r: "r \<in> set rows" "c_id r = c_id (dc ! k)" "board_id r = dst"
          using sync_member [OF sync dst] D_sub by blast
        have "G r = r\<lparr>position := int k\<rparr>"
          using G_dest [OF _ kdc r(2)] False r(2) by simp
        then have "c_id (G r) = c_id (dc ! k) \<and> board_id (G r) = dst \<and> position (G r) = int k"
          using r by simp
        then show ?thesis
          using r(1) dest rows_map by (auto simp: new_seq)
      qed
    next
      case source
      have ksc: "k < length sc"
        using k source by (simp add: new_seq)
      have "sc ! k \<in> set (cards_of m src)"
        using nth_mem [OF ksc] sc_sub S by auto
      then obtain r where r: "r \<in> set rows" "c_id r = c_id (sc ! k)" "board_id r = src"
        using sync_member [OF sync src] by blast
      have "G r = r\<lparr>position := int k\<rparr>"
        using G_source [OF _ ksc r(2)] source by simp
      then have "c_id (G r) = c_id (sc ! k) \<and> board_id (G r) = src \<and> position (G r) = int k"
        using r by simp
      then show ?thesis
        using r(1) source rows_map by (auto simp: new_seq)
    next
      case other
      have kb: "k < length (cards_of m b')"
        using k other by (simp add: new_seq)
      obtain r where r: "r \<in> set rows" "c_id r = c_id (cards_of m b' ! k)" "board_id r = b'"
        "position r = int k"
        using sync_row [OF sync b' kb] by auto
      have "G r = r"
        using G_other [OF r(1)] r(3) other by simp
      then have "c_id (G r) = c_id (cards_of m b' ! k) \<and> board_id (G r) = b'
                 \<and> position (G r) = int k"
        using r by simp
      then show ?thesis
        using r(1) other rows_map by (auto simp: new_seq)
    qed
  qed
  have J2: "c_id r' \<in> c_id ` set (cards_of (m(src \<mapsto> sc, dst \<mapsto> dc)) (board_id r'))"
    if r': "r' \<in> set rows'" and br': "board_id r' \<in> set bs" for r'
  proof -
    obtain r where r: "r \<in> set rows" "r' = G r"
      using r' rows_map by auto
    show ?thesis
    proof (cases "c_id r = cardId")
      case True
      then have "board_id r' = dst" and "c_id r' = cardId"
        using G_card [OF True] r(2) by simp_all
      moreover have "c_id M \<in> c_id ` set dc"
        using set_dc by simp
      ultimately show ?thesis
        using cM by (simp add: new_seq)
    next
      case False
      have b: "board_id r' = board_id r" and c: "c_id r' = c_id r"
        using G_board [OF False] r(2) by simp_all
      obtain c0 where c0: "c0 \<in> set (cards_of m (board_id r))" "c_id c0 = c_id r"
        using sync_in_seq [OF sync r(1)] br' b by auto
      consider (dest) "board_id r = dst" | (source) "board_id r \<noteq> dst" "board_id r = src"
        | (other) "board_id r \<noteq> dst" "board_id r \<noteq> src"
        by blast
      then show ?thesis
      proof cases
        case dest
        have "c0 \<in> set D"
          using dst_rest [of c0] c0 dest False by simp
        then have "c0 \<in> set dc"
          using set_dc by simp
        then have "c_id c0 \<in> c_id ` set dc"
          by (rule imageI)
        then show ?thesis
          using b c c0(2) dest by (simp add: new_seq)
      next
        case source
        have "c0 \<in> set sc"
          using sc_rest [of c0] c0 source S False by simp
        then have "c_id c0 \<in> c_id ` set sc"
          by (rule imageI)
        then show ?thesis
          using b c c0(2) source by (simp add: new_seq)
      next
        case other
        have "c_id c0 \<in> c_id ` set (cards_of m (board_id r))"
          using c0(1) by (rule imageI)
        then show ?thesis
          using b c c0(2) other by (simp add: new_seq)
      qed
    qed
  qed
  have dr': "distinct (map c_id rows')"
    using dr unfolding rows_map by (simp add: comp_def)
  show "in_sync bs (m(src \<mapsto> sc, dst \<mapsto> dc)) rows'"
    unfolding in_sync_def using dr' J1 J2 by blast
  show "filter (\<lambda>r. board_id r = b) rows' = filter (\<lambda>r. board_id r = b) rows" if nb: "b \<notin> set bs"
    unfolding rows_map
  proof (rule filter_map_same)
    fix r
    assume r: "r \<in> set rows"
    show "(board_id (G r) = b) = (board_id r = b)"
    proof (cases "c_id r = cardId")
      case True
      have "r = r0"
        using row_unique [OF dr r r0(1)] True r0(2) by simp
      then have "board_id r = src" and "board_id (G r) = dst"
        using r0(3) G_card [OF True] by simp_all
      then show ?thesis
        using nb src dst by auto
    next
      case False
      then show ?thesis
        using G_board by simp
    qed
    show "G r = r" if "board_id r = b"
      using G_other [OF r] that nb src dst by auto
  qed
qed

subsection \<open>Agreement gives dense positions\<close>

lemma sync_board_rows:
  assumes sync: "in_sync bs m rows" and b: "b \<in> set bs"
  defines "F \<equiv> filter (\<lambda>r. board_id r = b) rows"
    and "n \<equiv> length (cards_of m b)"
  shows "r \<in> set F \<Longrightarrow> \<exists>k<n. c_id r = c_id (cards_of m b ! k) \<and> position r = int k"
    and "position ` set F = int ` {0..<n}"
    and "distinct (map position F)"
    and "length F = n"
proof -
  have dr: "distinct (map c_id rows)"
    using sync by (rule sync_rows_distinct)
  show idx: "\<exists>k<n. c_id r = c_id (cards_of m b ! k) \<and> position r = int k" if "r \<in> set F" for r
  proof -
    have r: "r \<in> set rows" and br: "board_id r = b"
      using that by (simp_all add: F_def)
    have "c_id r \<in> c_id ` set (cards_of m b)"
      using sync_in_seq [OF sync r] br b by simp
    then obtain k where k: "k < n" "c_id (cards_of m b ! k) = c_id r"
      by (auto simp: in_set_conv_nth n_def)
    obtain r' where r': "r' \<in> set rows" "c_id r' = c_id (cards_of m b ! k)" "position r' = int k"
      using sync_row [OF sync b, of k] k(1) by (auto simp: n_def)
    have "r = r'"
      using row_unique [OF dr r r'(1)] k(2) r'(2) by simp
    then show ?thesis
      using k r'(3) by auto
  qed
  show range: "position ` set F = int ` {0..<n}"
  proof (intro equalityI subsetI)
    fix p
    assume "p \<in> position ` set F"
    then obtain r where r: "r \<in> set F" "p = position r"
      by auto
    obtain k where "k < n" and "position r = int k"
      using idx [OF r(1)] by auto
    then show "p \<in> int ` {0..<n}"
      using r(2) by simp
  next
    fix p
    assume "p \<in> int ` {0..<n}"
    then obtain k where k: "k < n" "p = int k"
      by auto
    obtain r where "r \<in> set rows" "board_id r = b" "position r = int k"
      using sync_row [OF sync b, of k] k(1) by (auto simp: n_def)
    then have "r \<in> set F" and "position r = p"
      using k(2) by (simp_all add: F_def)
    then show "p \<in> position ` set F"
      by (auto simp: image_iff)
  qed
  have inj: "inj_on position (set F)"
  proof (rule inj_onI)
    fix r1 r2
    assume r1: "r1 \<in> set F" and r2: "r2 \<in> set F" and eq: "position r1 = position r2"
    obtain k1 where k1: "c_id r1 = c_id (cards_of m b ! k1)" "position r1 = int k1"
      using idx [OF r1] by auto
    obtain k2 where k2: "c_id r2 = c_id (cards_of m b ! k2)" "position r2 = int k2"
      using idx [OF r2] by auto
    have "k1 = k2"
      using eq k1(2) k2(2) by simp
    then have "c_id r1 = c_id r2"
      using k1(1) k2(1) by simp
    then show "r1 = r2"
      using row_unique [OF dr, of r1 r2] r1 r2 by (simp add: F_def)
  qed
  have dF: "distinct F"
    unfolding F_def using dr by (simp add: distinct_map)
  show dP: "distinct (map position F)"
    using dF inj by (simp add: distinct_map)
  have "length (map position F) = card (set (map position F))"
    using distinct_card [OF dP] by simp
  also have "\<dots> = card (int ` {0..<n})"
    using range by simp
  also have "\<dots> = n"
    by (simp add: card_image)
  finally show "length F = n"
    by simp
qed

lemma sync_dense:
  assumes sync: "in_sync bs m rows" and b: "b \<in> set bs"
  shows "positions_dense rows b"
proof -
  note facts = sync_board_rows [OF sync b]
  have "set (map position (filter (\<lambda>r. board_id r = b) rows))
        = set (map int [0..<length (map position (filter (\<lambda>r. board_id r = b) rows))])"
    using facts(2) facts(4) by simp
  then show ?thesis
    unfolding positions_dense_def board_positions_def using facts(3) by simp
qed

lemma sorted_ints: "sorted (map int [0..<n]) \<and> distinct (map int [0..<n])"
  by (simp add: sorted_map distinct_map)


subsection \<open>A loaded view agrees with the table\<close>

lemma cards_of_push:
  "cards_of (fold (\<lambda>c m. m(board_id c \<mapsto> cards_of m (board_id c) @ [c])) cs m0) b
   = cards_of m0 b @ filter (\<lambda>c. board_id c = b) cs"
  by (induction cs arbitrary: m0) (simp_all add: cards_of_upd)

lemma cards_of_cardsByBoard: "cards_of (cardsByBoard cs) b = filter (\<lambda>c. board_id c = b) cs"
  unfolding cardsByBoard_def cards_of_push by (simp add: cards_of_def)

lemma loaded_in_sync:
  assumes dr: "distinct (map c_id (card_rows store))"
    and dense: "\<And>b. positions_dense (card_rows store) b"
    and st: "st = fetchBoards projectId ReadOk ReadOk store st0"
  shows "in_sync (map b_id (boards st)) (cards st) (card_rows store)"
proof -
  define rows where "rows = card_rows store"
  define bs where "bs = map b_id (boards st)"
  have cards_st: "cards st = cardsByBoard (sort_key position
                    (filter (\<lambda>c. board_id c \<in> set bs) rows))"
    unfolding st bs_def rows_def by (simp add: fetchBoards_def Let_def)
  have seq: "cards_of (cards st) b = sort_key position (filter (\<lambda>r. board_id r = b) rows)"
    if "b \<in> set bs" for b
  proof -
    have "filter (\<lambda>c. board_id c = b) (filter (\<lambda>c. board_id c \<in> set bs) rows)
          = filter (\<lambda>r. board_id r = b) rows"
      using that by (auto intro: filter_cong)
    then show ?thesis
      unfolding cards_st cards_of_cardsByBoard filter_sort by simp
  qed
  have pos: "map position (sort_key position (filter (\<lambda>r. board_id r = b) rows))
             = map int [0..<length (filter (\<lambda>r. board_id r = b) rows)]" for b
  proof -
    define F where "F = filter (\<lambda>r. board_id r = b) rows"
    have dP: "distinct (map position F)"
      and sP: "set (map position F) = set (map int [0..<length F])"
      using dense [of b] by (simp_all add: positions_dense_def board_positions_def F_def rows_def)
    have "distinct (map position (sort_key position F))"
      using dP by (simp add: distinct_map)
    moreover have "set (map position (sort_key position F)) = set (map int [0..<length F])"
      using sP by simp
    moreover have "sorted (map position (sort_key position F))"
      by (rule sorted_sort_key)
    ultimately have "map position (sort_key position F) = map int [0..<length F]"
      using sorted_ints [of "length F"] by (intro sorted_distinct_set_unique) auto
    then show ?thesis
      unfolding F_def .
  qed
  have J1: "\<exists>r \<in> set rows. c_id r = c_id (cards_of (cards st) b ! k) \<and> board_id r = b
              \<and> position r = int k"
    if b: "b \<in> set bs" and k: "k < length (cards_of (cards st) b)" for b k
  proof -
    define s where "s = sort_key position (filter (\<lambda>r. board_id r = b) rows)"
    have s: "cards_of (cards st) b = s"
      unfolding s_def using b by (rule seq)
    have ks: "k < length s"
      using k s by simp
    have "s ! k \<in> set s"
      using ks by simp
    then have mem: "s ! k \<in> set rows" and brd: "board_id (s ! k) = b"
      by (simp_all add: s_def)
    have "map position s ! k = map int [0..<length (filter (\<lambda>r. board_id r = b) rows)] ! k"
      unfolding s_def pos ..
    then have "position (s ! k) = int k"
      using ks by (simp add: s_def)
    then show ?thesis
      using mem brd s by auto
  qed
  have J2: "c_id r \<in> c_id ` set (cards_of (cards st) (board_id r))"
    if r: "r \<in> set rows" and b: "board_id r \<in> set bs" for r
  proof -
    have "r \<in> set (sort_key position (filter (\<lambda>r'. board_id r' = board_id r) rows))"
      using r by simp
    then show ?thesis
      unfolding seq [OF b] by (rule imageI)
  qed
  show ?thesis
    unfolding in_sync_def bs_def [symmetric] rows_def [symmetric]
    using dr J1 J2 by (auto simp: rows_def)
qed

subsection \<open>One valid move, then any number of them\<close>

lemma valid_move_step:
  assumes sync: "in_sync (map b_id (boards st)) (cards st) (card_rows store)"
    and valid: "valid_move st m"
  shows "\<exists>e. handleDragEnd projectId (always Applied) ReadOk ReadOk m st store = Inr e
           \<and> boards (state_after e) = boards st
           \<and> in_sync (map b_id (boards st)) (cards (state_after e)) (rows_after e)
           \<and> (\<forall>b. b \<notin> set (map b_id (boards st)) \<longrightarrow>
                 filter (\<lambda>r. board_id r = b) (rows_after e)
                 = filter (\<lambda>r. board_id r = b) (card_rows store))"
proof (cases "destination m")
  case None
  then have "handleDragEnd projectId (always Applied) ReadOk ReadOk m st store
             = Inr (untouched st store)"
    by (simp add: handleDragEnd_def)
  then show ?thesis
    using sync by (simp add: untouched_def)
next
  case (Some d)
  show ?thesis
  proof (cases "droppableId d = droppableId (source m) \<and> index d = index (source m)")
    case True
    then have "handleDragEnd projectId (always Applied) ReadOk ReadOk m st store
               = Inr (untouched st store)"
      using Some by (simp add: handleDragEnd_def)
    then show ?thesis
      using sync by (simp add: untouched_def)
  next
    case False
    define src where "src = droppableId (source m)"
    define dst where "dst = droppableId d"
    define S where "S = cards_of (cards st) src"
    define i where "i = nat (index (source m))"
    define j where "j = nat (index d)"
    define D where "D = (if src = dst then take i S @ drop (Suc i) S else cards_of (cards st) dst)"
    define sc where "sc = take i S @ drop (Suc i) S"
    define dc where "dc = take j D @ (S ! i)\<lparr>board_id := dst\<rparr> # drop j D"
    have v: "src \<in> set (map b_id (boards st))" "dst \<in> set (map b_id (boards st))"
      "0 \<le> index (source m)" "index (source m) < int (length S)"
      "c_id (S ! i) = draggableId m" "0 \<le> index d"
      "index d \<le> (if src = dst then int (length S) - 1 else int (length (cards_of (cards st) dst)))"
      using valid Some by (auto simp: valid_move_def Let_def src_def dst_def S_def i_def)
    have i: "i < length S"
      using v(3,4) by (simp add: i_def)
    have lenD: "int (length D)
                = (if src = dst then int (length S) - 1 else int (length (cards_of (cards st) dst)))"
      using i by (auto simp: D_def)
    have jD: "index d \<le> int (length D)"
      using v(7) lenD by simp
    then have j: "j \<le> length D"
      using v(6) by (simp add: j_def)
    have ij: "int j = index d"
      using v(6) by (simp add: j_def)
    have "local_move (cards st) src (index (source m)) dst (index d)
          = Inr (take (nat (index (source m))) S @ drop (Suc (nat (index (source m)))) S,
                 take (nat (index d)) D
                 @ (S ! nat (index (source m)))\<lparr>board_id := dst\<rparr> # drop (nat (index d)) D)"
      by (rule local_move_in_range [OF S_def v(3) v(4) D_def [unfolded i_def] v(6) jD])
    then have lm: "local_move (cards st) (droppableId (source m)) (index (source m))
                     (droppableId d) (index d) = Inr (sc, dc)"
      by (simp only: src_def dst_def sc_def dc_def i_def j_def)
    note run = handleDragEnd_applied [OF Some False lm, of projectId ReadOk ReadOk store]
    have rows': "fold apply_update
                   (move_updates (draggableId m) (droppableId (source m)) (droppableId d)
                      (index d) sc dc) (card_rows store)
                 = fold apply_update (move_updates (draggableId m) src dst (int j) sc dc)
                     (card_rows store)"
      by (simp add: src_def dst_def ij)
    note keep = move_keeps_sync [OF sync v(1,2) S_def i v(5) D_def j sc_def dc_def refl]
    show ?thesis
      unfolding run rows'
      using keep by (simp add: src_def dst_def)
  qed
qed

lemma dense_of_same_rows:
  "filter (\<lambda>r. board_id r = b) rows' = filter (\<lambda>r. board_id r = b) rows
   \<Longrightarrow> positions_dense rows' b = positions_dense rows b"
  by (simp add: positions_dense_def board_positions_def)

lemma valid_moves_keep_sync:
  assumes "in_sync (map b_id (boards st)) (cards st) (card_rows store)"
    and "\<forall>b. b \<notin> set (map b_id (boards st)) \<longrightarrow> positions_dense (card_rows store) b"
    and "valid_moves projectId ms st store"
  shows "\<exists>st' store'. run_moves projectId ms st store = Some (st', store')
           \<and> in_sync (map b_id (boards st')) (cards st') (card_rows store')
           \<and> (\<forall>b. b \<notin> set (map b_id (boards st')) \<longrightarrow> positions_dense (card_rows store') b)"
  using assms
proof (induction ms arbitrary: st store)
  case Nil
  then show ?case by simp
next
  case (Cons m ms)
  have vm: "valid_move st m"
    using Cons.prems(3) by simp
  obtain e where all:
    "handleDragEnd projectId (always Applied) ReadOk ReadOk m st store = Inr e
     \<and> boards (state_after e) = boards st
     \<and> in_sync (map b_id (boards st)) (cards (state_after e)) (rows_after e)
     \<and> (\<forall>b. b \<notin> set (map b_id (boards st)) \<longrightarrow>
           filter (\<lambda>r. board_id r = b) (rows_after e)
           = filter (\<lambda>r. board_id r = b) (card_rows store))"
    using valid_move_step [OF Cons.prems(1) vm, of projectId] ..
  have e: "handleDragEnd projectId (always Applied) ReadOk ReadOk m st store = Inr e"
    using all by (rule conjunct1)
  have bs: "boards (state_after e) = boards st"
    using all by (elim conjE)
  have sync': "in_sync (map b_id (boards st)) (cards (state_after e)) (rows_after e)"
    using all by (elim conjE)
  have same: "filter (\<lambda>r. board_id r = b) (rows_after e)
              = filter (\<lambda>r. board_id r = b) (card_rows store)"
    if "b \<notin> set (map b_id (boards st))" for b
    using all that by (elim conjE allE impE)
  have rest: "valid_moves projectId ms (state_after e) (store\<lparr>card_rows := rows_after e\<rparr>)"
    using Cons.prems(3) e by simp
  have 1: "in_sync (map b_id (boards (state_after e))) (cards (state_after e))
             (card_rows (store\<lparr>card_rows := rows_after e\<rparr>))"
    using sync' bs by simp
  have 2: "\<forall>b. b \<notin> set (map b_id (boards (state_after e))) \<longrightarrow>
             positions_dense (card_rows (store\<lparr>card_rows := rows_after e\<rparr>)) b"
  proof (intro allI impI)
    fix b
    assume "b \<notin> set (map b_id (boards (state_after e)))"
    then have nb: "b \<notin> set (map b_id (boards st))"
      using bs by simp
    have "positions_dense (rows_after e) b = positions_dense (card_rows store) b"
      by (rule dense_of_same_rows [OF same [OF nb]])
    then show "positions_dense (card_rows (store\<lparr>card_rows := rows_after e\<rparr>)) b"
      using Cons.prems(2) nb by simp
  qed
  show ?case
    using Cons.IH [OF 1 2 rest] e by simp
qed

text \<open>
  C3. Start from a table in which every board's positions are \<open>0, ..., count - 1\<close>
  without duplicates and card identifiers are unique, with the view loaded from
  it by \<^verbatim>\<open>fetchBoards\<close>. After any sequence of moves whose writes are all applied,
  each move being one the drag gesture can report for the view it starts from
  (the dragged card is at the source index, the destination index lies in the
  destination sequence, both boards are in the view), every move returns and
  in the table every board's positions are again exactly \<open>0, ..., count - 1\<close>
  without duplicates.
\<close>

theorem moves_keep_positions_dense:
  assumes "distinct (map c_id (card_rows store))"
    and "\<forall>b. positions_dense (card_rows store) b"
    and "st = fetchBoards projectId ReadOk ReadOk store st0"
    and "valid_moves projectId ms st store"
  shows "\<exists>st' store'. run_moves projectId ms st store = Some (st', store')
           \<and> (\<forall>b. positions_dense (card_rows store') b)"
proof -
  have sync: "in_sync (map b_id (boards st)) (cards st) (card_rows store)"
    using assms(2) by (intro loaded_in_sync [OF assms(1) _ assms(3)]) simp
  have out: "\<forall>b. b \<notin> set (map b_id (boards st)) \<longrightarrow> positions_dense (card_rows store) b"
    using assms(2) by simp
  obtain st' store' where run: "run_moves projectId ms st store = Some (st', store')"
    and sync': "in_sync (map b_id (boards st')) (cards st') (card_rows store')"
    and out': "\<forall>b. b \<notin> set (map b_id (boards st')) \<longrightarrow> positions_dense (card_rows store') b"
    using valid_moves_keep_sync [OF sync out assms(4)] by (elim exE conjE)
  have "positions_dense (card_rows store') b" for b
  proof (cases "b \<in> set (map b_id (boards st'))")
    case True
    then show ?thesis
      using sync' by (intro sync_dense)
  next
    case False
    then show ?thesis
      using out' by simp
  qed
  then show ?thesis
    using run by blast
qed

lemma eval_load_two_boards:
  "fetchBoards ''p'' ReadOk ReadOk
     \<lparr>board_rows = [(''p'', mk_board ''A'' 0), (''p'', mk_board ''B'' 1)],
      card_rows = [mk_card ''p1'' ''A'' 0, mk_card ''q1'' ''A'' 1, mk_card ''r1'' ''B'' 0]\<rparr>
     (view [] Map.empty)
   = view [mk_board ''A'' 0, mk_board ''B'' 1]
       [''A'' \<mapsto> [mk_card ''p1'' ''A'' 0, mk_card ''q1'' ''A'' 1],
        ''B'' \<mapsto> [mk_card ''r1'' ''B'' 0]]"
  by (simp add: fetchBoards_def cardsByBoard_def cards_of_def mk_card_sel view_sel mk_board_sel)
     (simp add: view_def fun_eq_iff)

lemma eval_p_across:
  "handleDragEnd ''p'' (always Applied) ReadOk ReadOk
     \<lparr>destination = Some \<lparr>droppableId = ''B'', index = 1\<rparr>,
      source = \<lparr>droppableId = ''A'', index = 0\<rparr>, draggableId = ''p1''\<rparr>
     (view [mk_board ''A'' 0, mk_board ''B'' 1]
        [''A'' \<mapsto> [mk_card ''p1'' ''A'' 0, mk_card ''q1'' ''A'' 1],
         ''B'' \<mapsto> [mk_card ''r1'' ''B'' 0]])
     \<lparr>board_rows = [(''p'', mk_board ''A'' 0), (''p'', mk_board ''B'' 1)],
      card_rows = [mk_card ''p1'' ''A'' 0, mk_card ''q1'' ''A'' 1, mk_card ''r1'' ''B'' 0]\<rparr>
   = Inr \<lparr>displayed = view [mk_board ''A'' 0, mk_board ''B'' 1]
            [''A'' \<mapsto> [mk_card ''q1'' ''A'' 1],
             ''B'' \<mapsto> [mk_card ''r1'' ''B'' 0, mk_card ''p1'' ''B'' 0]],
          state_after = view [mk_board ''A'' 0, mk_board ''B'' 1]
            [''A'' \<mapsto> [mk_card ''q1'' ''A'' 1],
             ''B'' \<mapsto> [mk_card ''r1'' ''B'' 0, mk_card ''p1'' ''B'' 0]],
          rows_after = [mk_card ''p1'' ''B'' 1, mk_card ''q1'' ''A'' 0, mk_card ''r1'' ''B'' 0],
          writes = [SetBoardPosition ''p1'' ''B'' 1, SetPosition ''r1'' 0, SetPosition ''q1'' 0],
          reloaded = False, reported = False\<rparr>"
proof -
  have lm: "local_move
              [''A'' \<mapsto> [mk_card ''p1'' ''A'' 0, mk_card ''q1'' ''A'' 1],
               ''B'' \<mapsto> [mk_card ''r1'' ''B'' 0]] ''A'' 0 ''B'' 1
            = Inr ([mk_card ''q1'' ''A'' 1], [mk_card ''r1'' ''B'' 0, mk_card ''p1'' ''B'' 0])"
    by (simp add: local_move_def splice_remove_def splice_insert_def splice_start_def
          cards_of_def mk_card_sel)
  have us: "move_updates ''p1'' ''A'' ''B'' 1 [mk_card ''q1'' ''A'' 1]
              [mk_card ''r1'' ''B'' 0, mk_card ''p1'' ''B'' 0]
            = [SetBoardPosition ''p1'' ''B'' 1, SetPosition ''r1'' 0, SetPosition ''q1'' 0]"
    by (simp add: move_updates_def position_updates_def enumerate_eq_zip mk_card_sel)
  show ?thesis
    by (subst handleDragEnd_applied
          [where d = "\<lparr>droppableId = ''B'', index = 1\<rparr>"
             and sc = "[mk_card ''q1'' ''A'' 1]"
             and dc = "[mk_card ''r1'' ''B'' 0, mk_card ''p1'' ''B'' 0]"])
       (simp_all add: view_sel lm us mk_card_sel apply_update_def)
qed

lemma eval_r_down:
  "handleDragEnd ''p'' (always Applied) ReadOk ReadOk
     \<lparr>destination = Some \<lparr>droppableId = ''B'', index = 1\<rparr>,
      source = \<lparr>droppableId = ''B'', index = 0\<rparr>, draggableId = ''r1''\<rparr>
     (view [mk_board ''A'' 0, mk_board ''B'' 1]
        [''A'' \<mapsto> [mk_card ''q1'' ''A'' 1],
         ''B'' \<mapsto> [mk_card ''r1'' ''B'' 0, mk_card ''p1'' ''B'' 0]])
     \<lparr>board_rows = [(''p'', mk_board ''A'' 0), (''p'', mk_board ''B'' 1)],
      card_rows = [mk_card ''p1'' ''B'' 1, mk_card ''q1'' ''A'' 0, mk_card ''r1'' ''B'' 0]\<rparr>
   = Inr \<lparr>displayed = view [mk_board ''A'' 0, mk_board ''B'' 1]
            [''A'' \<mapsto> [mk_card ''q1'' ''A'' 1],
             ''B'' \<mapsto> [mk_card ''p1'' ''B'' 0, mk_card ''r1'' ''B'' 0]],
          state_after = view [mk_board ''A'' 0, mk_board ''B'' 1]
            [''A'' \<mapsto> [mk_card ''q1'' ''A'' 1],
             ''B'' \<mapsto> [mk_card ''p1'' ''B'' 0, mk_card ''r1'' ''B'' 0]],
          rows_after = [mk_card ''p1'' ''B'' 0, mk_card ''q1'' ''A'' 0, mk_card ''r1'' ''B'' 1],
          writes = [SetBoardPosition ''r1'' ''B'' 1, SetPosition ''p1'' 0],
          reloaded = False, reported = False\<rparr>"
proof -
  have lm: "local_move
              [''A'' \<mapsto> [mk_card ''q1'' ''A'' 1],
               ''B'' \<mapsto> [mk_card ''r1'' ''B'' 0, mk_card ''p1'' ''B'' 0]] ''B'' 0 ''B'' 1
            = Inr ([mk_card ''p1'' ''B'' 0], [mk_card ''p1'' ''B'' 0, mk_card ''r1'' ''B'' 0])"
    by (simp add: local_move_def splice_remove_def splice_insert_def splice_start_def
          cards_of_def mk_card_sel)
  have us: "move_updates ''r1'' ''B'' ''B'' 1 [mk_card ''p1'' ''B'' 0]
              [mk_card ''p1'' ''B'' 0, mk_card ''r1'' ''B'' 0]
            = [SetBoardPosition ''r1'' ''B'' 1, SetPosition ''p1'' 0]"
    by (simp add: move_updates_def position_updates_def enumerate_eq_zip mk_card_sel)
  show ?thesis
    by (subst handleDragEnd_applied
          [where d = "\<lparr>droppableId = ''B'', index = 1\<rparr>"
             and sc = "[mk_card ''p1'' ''B'' 0]"
             and dc = "[mk_card ''p1'' ''B'' 0, mk_card ''r1'' ''B'' 0]"])
       (simp_all add: view_sel lm us mk_card_sel apply_update_def)
qed

theorem moves_keep_positions_dense_witness:
  "run_moves ''p''
     [\<lparr>destination = Some \<lparr>droppableId = ''B'', index = 1\<rparr>,
       source = \<lparr>droppableId = ''A'', index = 0\<rparr>, draggableId = ''p1''\<rparr>,
      \<lparr>destination = Some \<lparr>droppableId = ''B'', index = 1\<rparr>,
       source = \<lparr>droppableId = ''B'', index = 0\<rparr>, draggableId = ''r1''\<rparr>]
     (fetchBoards ''p'' ReadOk ReadOk
        \<lparr>board_rows = [(''p'', mk_board ''A'' 0), (''p'', mk_board ''B'' 1)],
         card_rows = [mk_card ''p1'' ''A'' 0, mk_card ''q1'' ''A'' 1, mk_card ''r1'' ''B'' 0]\<rparr>
        (view [] Map.empty))
     \<lparr>board_rows = [(''p'', mk_board ''A'' 0), (''p'', mk_board ''B'' 1)],
      card_rows = [mk_card ''p1'' ''A'' 0, mk_card ''q1'' ''A'' 1, mk_card ''r1'' ''B'' 0]\<rparr>
   = Some
       (view [mk_board ''A'' 0, mk_board ''B'' 1]
          [''A'' \<mapsto> [mk_card ''q1'' ''A'' 1],
           ''B'' \<mapsto> [mk_card ''p1'' ''B'' 0, mk_card ''r1'' ''B'' 0]],
        \<lparr>board_rows = [(''p'', mk_board ''A'' 0), (''p'', mk_board ''B'' 1)],
         card_rows = [mk_card ''p1'' ''B'' 0, mk_card ''q1'' ''A'' 0, mk_card ''r1'' ''B'' 1]\<rparr>)
   \<and> positions_dense
       [mk_card ''p1'' ''B'' 0, mk_card ''q1'' ''A'' 0, mk_card ''r1'' ''B'' 1] ''A''
   \<and> positions_dense
       [mk_card ''p1'' ''B'' 0, mk_card ''q1'' ''A'' 0, mk_card ''r1'' ''B'' 1] ''B''"
proof -
  let ?store = "\<lparr>board_rows = [(''p'', mk_board ''A'' 0), (''p'', mk_board ''B'' 1)],
                 card_rows = [mk_card ''p1'' ''A'' 0, mk_card ''q1'' ''A'' 1,
                              mk_card ''r1'' ''B'' 0]\<rparr>"
  let ?ms = "[\<lparr>destination = Some \<lparr>droppableId = ''B'', index = 1\<rparr>,
               source = \<lparr>droppableId = ''A'', index = 0\<rparr>, draggableId = ''p1''\<rparr>,
              \<lparr>destination = Some \<lparr>droppableId = ''B'', index = 1\<rparr>,
               source = \<lparr>droppableId = ''B'', index = 0\<rparr>, draggableId = ''r1''\<rparr>]"
  have d: "distinct (map c_id (card_rows ?store))"
    by (simp add: mk_card_sel)
  have dense: "\<forall>b. positions_dense (card_rows ?store) b"
    by (auto simp: positions_dense_def board_positions_def mk_card_sel)
  have valid: "valid_moves ''p'' ?ms (fetchBoards ''p'' ReadOk ReadOk ?store (view [] Map.empty))
                 ?store"
    by (simp add: eval_load_two_boards eval_p_across eval_r_down valid_move_def view_sel
          cards_of_def mk_card_sel mk_board_sel Let_def)
  have run: "run_moves ''p'' ?ms (fetchBoards ''p'' ReadOk ReadOk ?store (view [] Map.empty))
               ?store
             = Some
                 (view [mk_board ''A'' 0, mk_board ''B'' 1]
                    [''A'' \<mapsto> [mk_card ''q1'' ''A'' 1],
                     ''B'' \<mapsto> [mk_card ''p1'' ''B'' 0, mk_card ''r1'' ''B'' 0]],
                  \<lparr>board_rows = [(''p'', mk_board ''A'' 0), (''p'', mk_board ''B'' 1)],
                   card_rows = [mk_card ''p1'' ''B'' 0, mk_card ''q1'' ''A'' 0,
                                mk_card ''r1'' ''B'' 1]\<rparr>)"
    by (simp add: eval_load_two_boards eval_p_across eval_r_down)
  show ?thesis
    using moves_keep_positions_dense [OF d dense refl valid] run by auto
qed

section \<open>The two worked moves\<close>










end
